theory Spec2Isabelle
  imports Main "HOL-Library.Word"
begin

unbundle bit_operations_syntax

section \<open>The LC-3 virtual machine of \<open>src/main.cc\<close>\<close>

text \<open>
  A shallow embedding of \<open>namespace lc3\<close>: the constants, the helpers \<open>SignExtend\<close>,
  \<open>u16Swap\<close>, \<open>R0\<close>, \<open>R1\<close>, \<open>R2\<close>, the class \<open>VM\<close> with \<open>LoadImage\<close>, \<open>UpdateFlag\<close>,
  \<open>MemRead\<close>, and the loop of \<open>VM::Run\<close>. A \<open>u16\<close> is a 16-bit word; arithmetic on it
  wraps modulo \<open>2 ^ 16\<close>. An access by an instruction outside the array \<open>memory_\<close>
  is undefined behaviour in C++; the model makes it the explicit result
  \<open>Inl OutOfBounds\<close>. The loader has no bound on where it copies and returns after
  the copy: what it writes behind the array is kept, in the cells from \<open>kMaxMemory\<close>
  on.
\<close>

type_synonym u16 = "16 word"
type_synonym u8 = "8 word"

subsection \<open>Constants\<close>

definition kR0 :: nat where "kR0 = 0"
definition kR7 :: nat where "kR7 = 7"
definition kRPC :: nat where "kRPC = 8"
definition kRCond :: nat where "kRCond = 9"
definition kRegCnt :: nat where "kRegCnt = kRCond + 1"

definition kOpAdd :: u16 where "kOpAdd = 0x1"
definition kOpAnd :: u16 where "kOpAnd = 0x5"
definition kOpBr :: u16 where "kOpBr = 0x0"
definition kOpJmp :: u16 where "kOpJmp = 0xC"
definition kOpJsr :: u16 where "kOpJsr = 0x4"
definition kOpLd :: u16 where "kOpLd = 0x2"
definition kOpLdi :: u16 where "kOpLdi = 0xA"
definition kOpLdr :: u16 where "kOpLdr = 0x6"
definition kOpLea :: u16 where "kOpLea = 0xE"
definition kOpNot :: u16 where "kOpNot = 0x9"
definition kOpRti :: u16 where "kOpRti = 0x8"
definition kOpRes :: u16 where "kOpRes = 0xD"
definition kOpSt :: u16 where "kOpSt = 0x3"
definition kOpSti :: u16 where "kOpSti = 0xB"
definition kOpStr :: u16 where "kOpStr = 0x7"
definition kOpTrap :: u16 where "kOpTrap = 0xF"

definition kFlPos :: u16 where "kFlPos = push_bit 0 1"
definition kFlZro :: u16 where "kFlZro = push_bit 1 1"
definition kFlNeg :: u16 where "kFlNeg = push_bit 2 1"

definition kTrapGetc :: u16 where "kTrapGetc = 0x20"
definition kTrapOut :: u16 where "kTrapOut = 0x21"
definition kTrapPuts :: u16 where "kTrapPuts = 0x22"
definition kTrapIn :: u16 where "kTrapIn = 0x23"
definition kTrapPutsp :: u16 where "kTrapPutsp = 0x24"
definition kTrapHalt :: u16 where "kTrapHalt = 0x25"

definition kKeyboardStatus :: nat where "kKeyboardStatus = 0xFE00"
definition kKeyboardData :: nat where "kKeyboardData = 0xFE02"

text \<open>\<open>constexpr int kMaxMemory = UINT16_MAX;\<close> and \<open>UINT16_MAX\<close> is 65535.\<close>

definition kMaxMemory :: nat where "kMaxMemory = 65535"

subsection \<open>Bit-field helpers\<close>

text \<open>
  \<open>SignExtend(u16 x, int bits_cnt)\<close>: the operands are promoted to \<open>int\<close>, the result is
  truncated to 16 bits on return. Every call in the source passes 5, 6, 9 or 11 for
  \<open>bits_cnt\<close>, so \<open>bits_cnt - 1\<close> is never negative there.
\<close>

definition SignExtend :: "u16 \<Rightarrow> nat \<Rightarrow> u16" where
  "SignExtend x bits_cnt =
     (if (drop_bit (bits_cnt - 1) x) AND 1 \<noteq> 0 then (push_bit bits_cnt 0xFFFF) OR x else x)"

definition u16Swap :: "u16 \<Rightarrow> u16" where
  "u16Swap x = (drop_bit 8 x) OR (push_bit 8 x)"

definition R0 :: "u16 \<Rightarrow> u16" where "R0 instr = (drop_bit 9 instr) AND 0x7"
definition R1 :: "u16 \<Rightarrow> u16" where "R1 instr = (drop_bit 6 instr) AND 0x7"
definition R2 :: "u16 \<Rightarrow> u16" where "R2 instr = instr AND 0x7"

subsection \<open>The machine and its terminal\<close>

text \<open>
  \<open>memory\<close> and \<open>reg\<close> are the two arrays of \<open>class VM\<close>, \<open>u16 memory_[kMaxMemory]\<close>
  and \<open>u16 reg_[kRegCnt]\<close>, indexed from 0 (a name cannot end in an underscore
  here). \<open>reg\<close> holds the eight general registers, then the program counter at
  \<open>kRPC\<close> and the condition flags at \<open>kRCond\<close>. The terminal the process talks to
  is threaded with them. \<open>stdin\<close> holds the input that waits on descriptor 0,
  oldest first, each byte as the value \<open>getchar()\<close> returns for it (a byte, or -1 for
  \<open>EOF\<close>): it is what \<open>select\<close> sees and what one \<open>read\<close> by the C library takes.
  \<open>stdio_buf\<close> holds the input the C library has read into the buffer of the stream
  and not yet handed out: \<open>getchar()\<close> serves from it first, and the source never
  turns the buffering of the stream off. \<open>stdout\<close> is what has been written to stdout.
  \<open>memory i\<close> is the word at \<open>memory_ + i\<close>: the array for \<open>i < kMaxMemory\<close>, and from
  \<open>kMaxMemory\<close> on the words that lie behind the array.
\<close>

record VM =
  memory :: "nat \<Rightarrow> u16"
  reg :: "nat \<Rightarrow> u16"
  stdin :: "int list"
  stdio_buf :: "int list"
  stdout :: "string"

text \<open>
  \<open>OutOfBounds\<close>: an instruction's access outside \<open>memory_\<close>, or a read outside the
  image buffer (undefined behaviour in C++). \<open>Blocked\<close>: a blocking read with no input
  waiting; the call does not return in this state of the terminal.
\<close>

datatype fault = OutOfBounds | Blocked

text \<open>\<open>u16 memory_[kMaxMemory] = {0}; u16 reg_[kRegCnt] = {0};\<close>\<close>

definition VM_new :: "int list \<Rightarrow> VM" where
  "VM_new input =
     \<lparr>memory = (\<lambda>_. 0), reg = (\<lambda>_. 0), stdin = input, stdio_buf = [], stdout = []\<rparr>"

definition set_reg :: "VM \<Rightarrow> nat \<Rightarrow> u16 \<Rightarrow> VM" where
  "set_reg vm r v = vm\<lparr>reg := (reg vm)(r := v)\<rparr>"

text \<open>
  A store \<open>memory_[a] = v\<close> by an instruction: inside the array only for
  \<open>a < kMaxMemory\<close>.
\<close>

definition mem_write :: "VM \<Rightarrow> nat \<Rightarrow> u16 \<Rightarrow> fault + VM" where
  "mem_write vm a v =
     (if a < kMaxMemory then Inr (vm\<lparr>memory := (memory vm)(a := v)\<rparr>) else Inl OutOfBounds)"

text \<open>
  \<open>CheckKey\<close> is \<open>select\<close> on descriptor 0 with a zero timeout: true when input
  waits there, whatever the stream's buffer holds. \<open>getchar\<close> hands out the oldest
  character of the stream's buffer; when the buffer is empty it reads the descriptor
  first, which takes the input waiting there into the buffer, and waits when there is
  none. \<open>putc(c, stdout)\<close> writes the low byte of \<open>c\<close>; \<open>printf\<close> and \<open>puts\<close> of a
  literal write its characters.
\<close>

definition CheckKey :: "VM \<Rightarrow> bool" where
  "CheckKey vm = (stdin vm \<noteq> [])"

definition getchar :: "VM \<Rightarrow> fault + (int \<times> VM)" where
  "getchar vm =
     (case stdio_buf vm of
        b # bs \<Rightarrow> Inr (b, vm\<lparr>stdio_buf := bs\<rparr>)
      | [] \<Rightarrow>
          (case stdin vm of
             [] \<Rightarrow> Inl Blocked
           | c # cs \<Rightarrow> Inr (c, vm\<lparr>stdin := [], stdio_buf := cs\<rparr>)))"

definition putc :: "int \<Rightarrow> VM \<Rightarrow> VM" where
  "putc c vm = vm\<lparr>stdout := stdout vm @ [char_of c]\<rparr>"

definition printf :: "string \<Rightarrow> VM \<Rightarrow> VM" where
  "printf s vm = vm\<lparr>stdout := stdout vm @ s\<rparr>"

subsection \<open>\<open>VM::LoadImage\<close>\<close>

text \<open>
  \<open>memcpy\<close> works on bytes. The host is little-endian, as the unconditional \<open>u16Swap\<close>
  of the loader presupposes: byte \<open>k\<close> of the array \<open>memory_\<close> is the low byte of word
  \<open>k div 2\<close> when \<open>k\<close> is even and its high byte when \<open>k\<close> is odd.
\<close>

definition host_u16 :: "u8 \<Rightarrow> u8 \<Rightarrow> u16" where
  "host_u16 b0 b1 = (ucast b0) OR (push_bit 8 (ucast b1))"

definition store_byte :: "(nat \<Rightarrow> u16) \<Rightarrow> nat \<Rightarrow> u8 \<Rightarrow> (nat \<Rightarrow> u16)" where
  "store_byte m k b =
     (let w = m (k div 2)
      in m(k div 2 := (if even k then (w AND 0xFF00) OR (ucast b)
                       else (w AND 0x00FF) OR (push_bit 8 (ucast b)))))"

fun memcpy_bytes :: "(nat \<Rightarrow> u16) \<Rightarrow> nat \<Rightarrow> u8 list \<Rightarrow> (nat \<Rightarrow> u16)" where
  "memcpy_bytes m k [] = m"
| "memcpy_bytes m k (b # bs) = memcpy_bytes (store_byte m k b) (Suc k) bs"

text \<open>The byte at byte offset \<open>k\<close> of the array, on the same host.\<close>

definition byte_at :: "(nat \<Rightarrow> u16) \<Rightarrow> nat \<Rightarrow> u8" where
  "byte_at m k = (if even k then ucast (m (k div 2)) else ucast (drop_bit 8 (m (k div 2))))"

text \<open>
  \<open>while (n-- > 0) { *p = u16Swap(*p); ++p; }\<close> with \<open>p\<close> an offset from \<open>memory_\<close>.
  Neither the copy nor this loop has a bound in the source: past the array they go
  on into the words behind it.
\<close>

fun swap_loop :: "(nat \<Rightarrow> u16) \<Rightarrow> nat \<Rightarrow> nat \<Rightarrow> (nat \<Rightarrow> u16)" where
  "swap_loop m p 0 = m"
| "swap_loop m p (Suc n) = swap_loop (m(p := u16Swap (m p))) (Suc p) n"

text \<open>
  \<open>bool LoadImage(const char *image, int image_size)\<close>. The buffer is \<open>None\<close> for a
  null pointer \<open>image\<close> and otherwise the bytes allocated there; \<open>image_size\<close> is the
  separate \<open>int\<close> argument. \<open>usize n = image_size - sizeof(origin)\<close> is computed in the
  64-bit unsigned \<open>size_t\<close>, so it wraps for \<open>image_size < 2\<close>. The first \<open>memcpy\<close>
  reads two bytes of the buffer; the second reads \<open>n\<close> bytes from offset 2 and writes
  them from byte \<open>2 * origin\<close> of \<open>memory_\<close> on, wherever that ends. A read outside
  the buffer is the fault \<open>OutOfBounds\<close>; the function has no other exit than its two
  \<open>return\<close>s. The result is the returned \<open>bool\<close> with the machine after the call.
  \<open>image_size\<close> is a 32-bit \<open>int\<close> in the source and any integer here.
\<close>

definition LoadImage :: "VM \<Rightarrow> u8 list option \<Rightarrow> int \<Rightarrow> fault + (bool \<times> VM)" where
  "LoadImage vm image_buf image_size =
     (case image_buf of
        None \<Rightarrow> Inr (False, vm)
      | Some buf \<Rightarrow>
          if image_size = 0 \<or> image_size > int kMaxMemory then Inr (False, vm)
          else if length buf < 2 then Inl OutOfBounds
          else
            let origin = u16Swap (host_u16 (buf ! 0) (buf ! 1));
                n = nat ((image_size - 2) mod 2 ^ 64);
                p = unat origin
            in if length buf < 2 + n then Inl OutOfBounds
               else Inr (True,
                      vm\<lparr>memory :=
                           swap_loop (memcpy_bytes (memory vm) (2 * p) (take n (drop 2 buf))) p n\<rparr>))"

subsection \<open>\<open>VM::UpdateFlag\<close> and \<open>VM::MemRead\<close>\<close>

definition UpdateFlag :: "VM \<Rightarrow> nat \<Rightarrow> VM" where
  "UpdateFlag vm r =
     (if reg vm r = 0 then set_reg vm kRCond kFlZro
      else if drop_bit 15 (reg vm r) \<noteq> 0 then set_reg vm kRCond kFlNeg
      else set_reg vm kRCond kFlPos)"

text \<open>
  \<open>u16 MemRead(size_t addr)\<close>: the keyboard is polled only inside
  \<open>if (addr == kKeyboardStatus)\<close>; \<open>memory_[kKeyboardData] = getchar()\<close> truncates the
  \<open>int\<close> to 16 bits. Then \<open>return memory_[addr]\<close>.
\<close>

definition MemRead :: "VM \<Rightarrow> nat \<Rightarrow> fault + (u16 \<times> VM)" where
  "MemRead vm addr =
     (case (if addr = kKeyboardStatus then
              (if CheckKey vm then
                 (case getchar (vm\<lparr>memory := (memory vm)(kKeyboardStatus := push_bit 15 1)\<rparr>) of
                    Inl e \<Rightarrow> Inl e
                  | Inr (c, vm1) \<Rightarrow>
                      Inr (vm1\<lparr>memory := (memory vm1)(kKeyboardData := word_of_int c)\<rparr>))
               else Inr (vm\<lparr>memory := (memory vm)(kKeyboardStatus := 0)\<rparr>))
            else Inr vm) of
        Inl e \<Rightarrow> Inl e
      | Inr vm2 \<Rightarrow> if addr < kMaxMemory then Inr (memory vm2 addr, vm2) else Inl OutOfBounds)"

subsection \<open>The cases of the \<open>switch\<close> in \<open>VM::Run\<close>\<close>

text \<open>
  Each case of \<open>switch (op)\<close> is one definition, in the order of the source. A case
  that reads memory, stores to memory or reads the keyboard can fault; the others
  return the new machine.
\<close>

definition exec_Add :: "VM \<Rightarrow> u16 \<Rightarrow> VM" where
  "exec_Add vm instr =
     (let r0 = unat (R0 instr); r1 = unat (R1 instr)
      in UpdateFlag
           (if (drop_bit 5 instr) AND 0x1 \<noteq> 0
            then set_reg vm r0 (reg vm r1 + SignExtend (instr AND 0x1F) 5)
            else set_reg vm r0 (reg vm r1 + reg vm (unat (R2 instr)))) r0)"

definition exec_And :: "VM \<Rightarrow> u16 \<Rightarrow> VM" where
  "exec_And vm instr =
     (let r0 = unat (R0 instr); r1 = unat (R1 instr)
      in UpdateFlag
           (if (drop_bit 5 instr) AND 0x1 \<noteq> 0
            then set_reg vm r0 (reg vm r1 AND SignExtend (instr AND 0x1F) 5)
            else set_reg vm r0 (reg vm r1 AND reg vm (unat (R2 instr)))) r0)"

definition exec_Br :: "VM \<Rightarrow> u16 \<Rightarrow> VM" where
  "exec_Br vm instr =
     (if reg vm kRCond AND ((drop_bit 9 instr) AND 0x7) \<noteq> 0
      then set_reg vm kRPC (reg vm kRPC + SignExtend (instr AND 0x1FF) 9)
      else vm)"

definition exec_Jmp :: "VM \<Rightarrow> u16 \<Rightarrow> VM" where
  "exec_Jmp vm instr = set_reg vm kRPC (reg vm (unat (R1 instr)))"

definition exec_Jsr :: "VM \<Rightarrow> u16 \<Rightarrow> VM" where
  "exec_Jsr vm instr =
     (let vm1 = set_reg vm kR7 (reg vm kRPC)
      in if (drop_bit 11 instr) AND 0x1 \<noteq> 0
         then set_reg vm1 kRPC (reg vm1 kRPC + SignExtend (instr AND 0x7FF) 11)
         else set_reg vm1 kRPC (reg vm1 (unat (R1 instr))))"

definition exec_Ld :: "VM \<Rightarrow> u16 \<Rightarrow> fault + VM" where
  "exec_Ld vm instr =
     (let r0 = unat (R0 instr);
          addr = reg vm kRPC + SignExtend (instr AND 0x1FF) 9
      in case MemRead vm (unat addr) of
           Inl e \<Rightarrow> Inl e
         | Inr (v, vm1) \<Rightarrow> Inr (UpdateFlag (set_reg vm1 r0 v) r0))"

definition exec_Ldi :: "VM \<Rightarrow> u16 \<Rightarrow> fault + VM" where
  "exec_Ldi vm instr =
     (let r0 = unat (R0 instr);
          addr = reg vm kRPC + SignExtend (instr AND 0x1FF) 9
      in case MemRead vm (unat addr) of
           Inl e \<Rightarrow> Inl e
         | Inr (a, vm1) \<Rightarrow>
             (case MemRead vm1 (unat a) of
                Inl e \<Rightarrow> Inl e
              | Inr (v, vm2) \<Rightarrow> Inr (UpdateFlag (set_reg vm2 r0 v) r0)))"

definition exec_Ldr :: "VM \<Rightarrow> u16 \<Rightarrow> fault + VM" where
  "exec_Ldr vm instr =
     (let r0 = unat (R0 instr);
          addr = reg vm (unat (R1 instr)) + SignExtend (instr AND 0x3F) 6
      in case MemRead vm (unat addr) of
           Inl e \<Rightarrow> Inl e
         | Inr (v, vm1) \<Rightarrow> Inr (UpdateFlag (set_reg vm1 r0 v) r0))"

definition exec_Lea :: "VM \<Rightarrow> u16 \<Rightarrow> VM" where
  "exec_Lea vm instr =
     (let r0 = unat (R0 instr)
      in UpdateFlag (set_reg vm r0 (reg vm kRPC + SignExtend (instr AND 0x1FF) 9)) r0)"

definition exec_Not :: "VM \<Rightarrow> u16 \<Rightarrow> VM" where
  "exec_Not vm instr =
     (let r0 = unat (R0 instr)
      in UpdateFlag (set_reg vm r0 (NOT (reg vm (unat (R1 instr))))) r0)"

definition exec_St :: "VM \<Rightarrow> u16 \<Rightarrow> fault + VM" where
  "exec_St vm instr =
     (let addr = reg vm kRPC + SignExtend (instr AND 0x1FF) 9
      in mem_write vm (unat addr) (reg vm (unat (R0 instr))))"

definition exec_Sti :: "VM \<Rightarrow> u16 \<Rightarrow> fault + VM" where
  "exec_Sti vm instr =
     (let addr = reg vm kRPC + SignExtend (instr AND 0x1FF) 9
      in case MemRead vm (unat addr) of
           Inl e \<Rightarrow> Inl e
         | Inr (a, vm1) \<Rightarrow> mem_write vm1 (unat a) (reg vm1 (unat (R0 instr))))"

definition exec_Str :: "VM \<Rightarrow> u16 \<Rightarrow> fault + VM" where
  "exec_Str vm instr =
     (let addr = reg vm (unat (R1 instr)) + SignExtend (instr AND 0x3F) 6
      in mem_write vm (unat addr) (reg vm (unat (R0 instr))))"

text \<open>
  \<open>kTrapPuts\<close>: \<open>u16 *c = memory_ + reg_[kR0]; while (*c) { putc((char)*c, stdout); ++c; }\<close>.
  The pointer is not reduced modulo \<open>2 ^ 16\<close>: a string with no zero word before
  the end of \<open>memory_\<close> is read past the array.
\<close>

function puts_loop :: "VM \<Rightarrow> nat \<Rightarrow> fault + VM" where
  "puts_loop vm c =
     (if c < kMaxMemory
      then (if memory vm c \<noteq> 0 then puts_loop (putc (uint (memory vm c)) vm) (Suc c)
            else Inr vm)
      else Inl OutOfBounds)"
  by pat_completeness auto
termination
  by (relation "measure (\<lambda>(vm, c). kMaxMemory - c)") auto

declare puts_loop.simps [simp del]

text \<open>
  \<open>kTrapPutsp\<close>: \<open>char c1 = *c & 0xFF; putc(c1, stdout); char c2 = *c >> 8;
  if (c2) putc(c2, stdout); ++c;\<close>
\<close>

function putsp_loop :: "VM \<Rightarrow> nat \<Rightarrow> fault + VM" where
  "putsp_loop vm c =
     (if c < kMaxMemory
      then (if memory vm c \<noteq> 0
            then (let c1 = memory vm c AND 0xFF;
                      vm1 = putc (uint c1) vm;
                      c2 = drop_bit 8 (memory vm c);
                      vm2 = (if c2 \<noteq> 0 then putc (uint c2) vm1 else vm1)
                  in putsp_loop vm2 (Suc c))
            else Inr vm)
      else Inl OutOfBounds)"
  by pat_completeness auto
termination
  by (relation "measure (\<lambda>(vm, c). kMaxMemory - c)") auto

declare putsp_loop.simps [simp del]

text \<open>
  The inner \<open>switch (instr & 0xFF)\<close> has no \<open>default\<close>: any other trap code falls
  through with nothing done. \<open>kTrapIn\<close> reads into a \<open>char\<close>, signed on the hosts
  the program is written for, so the value stored in \<open>reg_[kR0]\<close> is the byte
  sign-extended. The result carries the new value of \<open>running\<close>.
\<close>

definition exec_Trap :: "VM \<Rightarrow> u16 \<Rightarrow> fault + (bool \<times> VM)" where
  "exec_Trap vm instr =
     (let code = instr AND 0xFF in
      if code = kTrapGetc then
        (case getchar vm of
           Inl e \<Rightarrow> Inl e
         | Inr (c, vm1) \<Rightarrow> Inr (True, UpdateFlag (set_reg vm1 kR0 (word_of_int c)) kR0))
      else if code = kTrapOut then Inr (True, putc (uint (reg vm kR0)) vm)
      else if code = kTrapPuts then
        (case puts_loop vm (unat (reg vm kR0)) of
           Inl e \<Rightarrow> Inl e
         | Inr vm1 \<Rightarrow> Inr (True, vm1))
      else if code = kTrapIn then
        (case getchar (printf ''Enter a character: '' vm) of
           Inl e \<Rightarrow> Inl e
         | Inr (i, vm1) \<Rightarrow>
             (let c = signed_take_bit 7 i
              in Inr (True, UpdateFlag (set_reg (putc c vm1) kR0 (word_of_int c)) kR0)))
      else if code = kTrapPutsp then
        (case putsp_loop vm (unat (reg vm kR0)) of
           Inl e \<Rightarrow> Inl e
         | Inr vm1 \<Rightarrow> Inr (True, vm1))
      else if code = kTrapHalt then Inr (False, printf (''halt'' @ [CHR 0x0A]) vm)
      else Inr (True, vm))"

definition lift_case :: "fault + VM \<Rightarrow> fault + (bool \<times> VM)" where
  "lift_case r = (case r of Inl e \<Rightarrow> Inl e | Inr vm \<Rightarrow> Inr (True, vm))"

text \<open>
  \<open>u16 op = instr >> 12; switch (op) { ... }\<close>. The result is the value of \<open>running\<close>
  after the case, with the machine. The sixteen cases cover every value of \<open>op\<close>;
  the \<open>default\<close> is kept as the last branch.
\<close>

definition execute :: "VM \<Rightarrow> u16 \<Rightarrow> fault + (bool \<times> VM)" where
  "execute vm instr =
     (let op = drop_bit 12 instr in
      if op = kOpAdd then Inr (True, exec_Add vm instr)
      else if op = kOpAnd then Inr (True, exec_And vm instr)
      else if op = kOpBr then Inr (True, exec_Br vm instr)
      else if op = kOpJmp then Inr (True, exec_Jmp vm instr)
      else if op = kOpJsr then Inr (True, exec_Jsr vm instr)
      else if op = kOpLd then lift_case (exec_Ld vm instr)
      else if op = kOpLdi then lift_case (exec_Ldi vm instr)
      else if op = kOpLdr then lift_case (exec_Ldr vm instr)
      else if op = kOpLea then Inr (True, exec_Lea vm instr)
      else if op = kOpNot then Inr (True, exec_Not vm instr)
      else if op = kOpRti \<or> op = kOpRes then Inr (False, printf ''bad opcode'' vm)
      else if op = kOpSt then lift_case (exec_St vm instr)
      else if op = kOpSti then lift_case (exec_Sti vm instr)
      else if op = kOpStr then lift_case (exec_Str vm instr)
      else if op = kOpTrap then exec_Trap vm instr
      else Inr (False, printf ''bad opcode'' vm))"

subsection \<open>The loop of \<open>VM::Run\<close>\<close>

text \<open>\<open>u16 addr = reg_[kRPC]++; u16 instr = MemRead(addr);\<close>\<close>

definition fetch :: "VM \<Rightarrow> fault + (u16 \<times> VM)" where
  "fetch vm = (let addr = reg vm kRPC in MemRead (set_reg vm kRPC (addr + 1)) (unat addr))"

text \<open>One iteration of \<open>while (running)\<close>: the new value of \<open>running\<close> and the machine.\<close>

definition step :: "VM \<Rightarrow> fault + (bool \<times> VM)" where
  "step vm = (case fetch vm of Inl e \<Rightarrow> Inl e | Inr (instr, vm1) \<Rightarrow> execute vm1 instr)"

text \<open>\<open>reg_[kRCond] = kFlZro; reg_[kRPC] = 0x3000;\<close>\<close>

definition Run_init :: "VM \<Rightarrow> VM" where
  "Run_init vm = set_reg (set_reg vm kRCond kFlZro) kRPC 0x3000"

text \<open>
  The loop may run forever, so it takes fuel: \<open>Inr (Some vm)\<close> is the machine when
  \<open>running\<close> became false, \<open>Inr None\<close> says the loop was still running when the fuel
  ran out. Raw-mode switching of the terminal and the \<open>SIGINT\<close> handler are outside
  the model.
\<close>

fun loop :: "nat \<Rightarrow> VM \<Rightarrow> fault + VM option" where
  "loop 0 vm = Inr None"
| "loop (Suc fuel) vm =
     (case step vm of
        Inl e \<Rightarrow> Inl e
      | Inr (running, vm1) \<Rightarrow> if running then loop fuel vm1 else Inr (Some vm1))"

definition Run :: "nat \<Rightarrow> VM \<Rightarrow> fault + VM option" where
  "Run fuel vm = loop fuel (Run_init vm)"


subsection \<open>The rules of the specification, for comparison\<close>


section \<open>Evaluation rules\<close>

lemmas const_defs =
  kR0_def kR7_def kRPC_def kRCond_def kKeyboardStatus_def kKeyboardData_def kMaxMemory_def
  kFlPos_def kFlZro_def kFlNeg_def

lemmas op_defs =
  kOpAdd_def kOpAnd_def kOpBr_def kOpJmp_def kOpJsr_def kOpLd_def kOpLdi_def kOpLdr_def
  kOpLea_def kOpNot_def kOpRti_def kOpRes_def kOpSt_def kOpSti_def kOpStr_def kOpTrap_def

lemmas trap_defs =
  kTrapGetc_def kTrapOut_def kTrapPuts_def kTrapIn_def kTrapPutsp_def kTrapHalt_def

lemma swap_loop_pos:
  "0 < n \<Longrightarrow> swap_loop m p n = swap_loop (m(p := u16Swap (m p))) (Suc p) (n - 1)"
  by (cases n) simp_all

lemma loop_pos:
  "0 < fuel \<Longrightarrow> loop fuel vm =
     (case step vm of
        Inl e \<Rightarrow> Inl e
      | Inr (running, vm1) \<Rightarrow> if running then loop (fuel - 1) vm1 else Inr (Some vm1))"
  by (cases fuel) (simp_all split: sum.splits prod.splits)

lemmas load_eval =
  LoadImage_def VM_new_def kMaxMemory_def host_u16_def u16Swap_def store_byte_def
  swap_loop_pos Let_def

lemmas step_eval =
  step_def fetch_def Run_init_def set_reg_def MemRead_def mem_write_def const_defs execute_def
  op_defs R0_def R1_def R2_def UpdateFlag_def SignExtend_def lift_case_def Let_def loop_pos
  Run_def CheckKey_def getchar_def putc_def printf_def unsigned_minus_1_eq_mask
  mask_eq_exp_minus_1

lemmas state_eval =
  Run_init_def set_reg_def MemRead_def mem_write_def const_defs op_defs R0_def R1_def R2_def
  UpdateFlag_def SignExtend_def lift_case_def Let_def CheckKey_def getchar_def

section \<open>Bit fields of an instruction\<close>


lemma op_range: "unat (drop_bit 12 (instr::u16)) < 16"
proof -
  have "unat instr < 2 ^ 16" using unsigned_less [of instr] by simp
  then show ?thesis
    by (simp add: unat_drop_bit_eq drop_bit_eq_div unat_div less_mult_imp_div_less)
qed

lemma and7: "unat ((x::u16) AND 7) < 8"
proof -
  have "x AND 7 \<le> 7" by (rule word_and_le1)
  then have "unat (x AND 7) \<le> unat (7::u16)" by (simp add: word_le_nat_alt)
  then show ?thesis by simp
qed

lemma R0_lt: "unat (R0 instr) < 8" and R1_lt: "unat (R1 instr) < 8" and R2_lt: "unat (R2 instr) < 8"
  by (simp_all add: R0_def R1_def R2_def and7)

lemma op_cases:
  "drop_bit 12 (instr::u16) \<in> {0, 1, 2, 3, 4, 5, 6, 7, 8, 9, 10, 11, 12, 13, 14, 15}"
proof -
  define k where "k = unat (drop_bit 12 instr)"
  have k: "k < 16" unfolding k_def by (rule op_range)
  have "drop_bit 12 instr = of_nat k" by (simp add: k_def)
  moreover have "k \<in> {0, 1, 2, 3, 4, 5, 6, 7, 8, 9, 10, 11, 12, 13, 14, 15}"
    using k by (simp only: insert_iff empty_iff) presburger
  ultimately show ?thesis by auto
qed

section \<open>Sign extension\<close>

lemma sign_bit_test: "(drop_bit k (x::u16)) AND 1 \<noteq> 0 \<longleftrightarrow> bit x k"
  by (simp add: and_one_eq bit_iff_odd_drop_bit mod_2_eq_odd)

lemma SignExtend_signed_take_bit:
  assumes "0 < n" "n \<le> 16" "take_bit n x = x"
  shows "SignExtend x n = signed_take_bit (n - 1) x"
proof (rule bit_word_eqI)
  fix i :: nat
  assume i: "i < LENGTH(16)"
  have hi: "bit x j \<Longrightarrow> j < n" for j
    by (metis assms(3) bit_take_bit_iff)
  have ones: "(0xFFFF :: u16) = - 1" by simp
  consider "i < n - 1" | "i = n - 1" | "n \<le> i" using assms(1) by linarith
  then show "bit (SignExtend x n) i = bit (signed_take_bit (n - 1) x) i"
  proof cases
    case 1
    then show ?thesis using i assms(1,2)
      by (auto simp only: SignExtend_def sign_bit_test ones bit_simps split: if_splits) (auto simp: min_def)
  next
    case 2
    then show ?thesis using i assms(1,2)
      by (auto simp only: SignExtend_def sign_bit_test ones bit_simps split: if_splits) (auto simp: min_def)
  next
    case 3
    then have "\<not> bit x i" using hi [of i] by auto
    with 3 show ?thesis using i assms(1,2)
      by (auto simp only: SignExtend_def sign_bit_test ones bit_simps split: if_splits)
        (auto simp: min_def split: if_splits)
  qed
qed

lemma SignExtend_arith:
  assumes "0 < n" "n \<le> 16" "take_bit n x = x"
  shows "SignExtend x n = x - 2 ^ n * of_bool (bit x (n - 1))"
  using assms  SignExtend_signed_take_bit [OF assms] signed_take_bit_eq_take_bit_minus [of "n - 1" x]
  by simp

lemma field_take_bit: "n < 16 \<Longrightarrow> (x::u16) < 2 ^ n \<Longrightarrow> take_bit n x = x"
  by (simp add: less_mask_eq take_bit_eq_mask)

lemma ux_aux: "n < 16 \<Longrightarrow> (x::u16) < 2 ^ n \<Longrightarrow> uint x < 2 ^ n"
  by (metis field_take_bit take_bit_int_eq_self_iff unsigned_take_bit_eq)

lemma SignExtend_neg_sint:
  assumes "0 < n" "n < 16" "(x::u16) < 2 ^ n" "bit x (n - 1)"
  shows "sint (SignExtend x n) = uint x - 2 ^ n"
proof -
  have "SignExtend x n = x - 2 ^ n"
    using SignExtend_arith [of n x] assms field_take_bit [of n x] by simp
  also have "\<dots> = word_of_int (uint x - 2 ^ n)" by simp
  finally have eq: "SignExtend x n = word_of_int (uint x - 2 ^ n)" .
  have ux: "uint x < 2 ^ n"
    using assms(2,3) by (rule ux_aux)
  have "(2::int) ^ n \<le> 2 ^ 15" using assms(2) by (intro power_increasing) auto
  then have "- (2 ^ 15) \<le> uint x - 2 ^ n" "uint x - 2 ^ n < 2 ^ 15"
    using ux uint_ge_0 [of x] by linarith+
  then have "signed_take_bit 15 (uint x - 2 ^ n) = uint x - 2 ^ n"
    by (simp add: signed_take_bit_int_eq_self)
  then show ?thesis
    unfolding eq sint_sbintrunc' by simp
qed

text \<open>
  C10. For a field of n bits, n one of 5, 6, 9, 11: when bit n-1 of the field x is 1,
  the result has bits n to 15 set and the bits below unchanged, and it is the
  two's-complement value x - 2^n, as a signed reading and modulo 2^16; when bit n-1
  is 0 the result is x. The two examples of the specification are included.
\<close>

theorem C10_sign_extend:
  assumes "n \<in> {5, 6, 9, 11}" and "x < 2 ^ n"
  shows "(bit x (n - 1) \<longrightarrow>
            (\<forall>i. n \<le> i \<and> i < 16 \<longrightarrow> bit (SignExtend x n) i) \<and>
            (\<forall>i < n. bit (SignExtend x n) i = bit x i) \<and>
            sint (SignExtend x n) = uint x - 2 ^ n \<and>
            SignExtend x n = word_of_int (uint x - 2 ^ n)) \<and>
         (\<not> bit x (n - 1) \<longrightarrow> SignExtend x n = x) \<and>
         SignExtend 0x1F 5 = 0xFFFF \<and> SignExtend 0x01 5 = 0x0001"
proof -
  have n: "0 < n" "n < 16" using assms(1) by auto
  have tb: "take_bit n x = x" using field_take_bit n assms(2) by blast
  have stb: "SignExtend x n = signed_take_bit (n - 1) x"
    using SignExtend_signed_take_bit [of n x] n tb by simp
  have hi: "bit x (n - 1) \<Longrightarrow> n \<le> i \<Longrightarrow> i < 16 \<Longrightarrow> bit (SignExtend x n) i" for i
    using n by (simp add: stb bit_simps)
  have lo: "i < n \<Longrightarrow> bit (SignExtend x n) i = bit x i" for i
    using n by (cases "i = n - 1") (auto simp add: stb bit_simps min_def)
  have neg: "bit x (n - 1) \<Longrightarrow> sint (SignExtend x n) = uint x - 2 ^ n"
    using SignExtend_neg_sint [of n x] n assms(2) by simp
  have neg': "bit x (n - 1) \<Longrightarrow> SignExtend x n = word_of_int (uint x - 2 ^ n)"
    using SignExtend_arith [of n x] n tb by simp
  have pos: "\<not> bit x (n - 1) \<Longrightarrow> SignExtend x n = x"
    by (simp add: SignExtend_def sign_bit_test)
  have ex: "SignExtend 0x1F 5 = 0xFFFF" "SignExtend 0x01 5 = 0x0001"
    by (simp_all add: SignExtend_def)
  show ?thesis using hi lo neg neg' pos ex by blast
qed

theorem C10_sign_extend_witness:
  "(9::nat) \<in> {5, 6, 9, 11} \<and> (0x1FE :: u16) < 2 ^ 9 \<and> bit (0x1FE :: u16) (9 - 1) \<and>
   SignExtend 0x1FE 9 = 0xFFFE \<and> sint (SignExtend 0x1FE 9) = - 2"
proof -
  have h1: "(9::nat) \<in> {5, 6, 9, 11}" by simp
  have h2: "(0x1FE :: u16) < 2 ^ 9" by simp
  have h3: "bit (0x1FE :: u16) (9 - 1)" by simp
  have "uint (0x1FE :: u16) - 2 ^ 9 = - 2" by simp
  with C10_sign_extend [OF h1 h2, THEN conjunct1, rule_format, OF h3]
  have "sint (SignExtend 0x1FE 9) = - 2" "SignExtend 0x1FE 9 = word_of_int (- 2)"
    by simp_all
  then show ?thesis using h1 h2 h3 by simp
qed

section \<open>Memory reads and the keyboard device\<close>

lemma MemRead_status:
  "MemRead vm kKeyboardStatus =
     (case stdin vm of
        [] \<Rightarrow> Inr (0, vm\<lparr>memory := (memory vm)(kKeyboardStatus := 0)\<rparr>)
      | c # cs \<Rightarrow>
          (case stdio_buf vm of
             [] \<Rightarrow>
               Inr (push_bit 15 1,
                    vm\<lparr>memory := (memory vm)(kKeyboardStatus := push_bit 15 1,
                                              kKeyboardData := word_of_int c),
                       stdin := [], stdio_buf := cs\<rparr>)
           | b # bs \<Rightarrow>
               Inr (push_bit 15 1,
                    vm\<lparr>memory := (memory vm)(kKeyboardStatus := push_bit 15 1,
                                              kKeyboardData := word_of_int b),
                       stdio_buf := bs\<rparr>)))"
  by (simp add: MemRead_def CheckKey_def getchar_def const_defs split: list.splits)

lemma MemRead_other:
  "addr \<noteq> kKeyboardStatus \<Longrightarrow> addr < kMaxMemory \<Longrightarrow> MemRead vm addr = Inr (memory vm addr, vm)"
  by (simp add: MemRead_def)

lemma MemRead_out_of_bounds:
  "kMaxMemory \<le> addr \<Longrightarrow> MemRead vm addr = Inl OutOfBounds"
  by (simp add: MemRead_def const_defs)

lemma MemRead_frame:
  "MemRead vm addr = Inr (v, vm1) \<Longrightarrow> reg vm1 = reg vm \<and> stdout vm1 = stdout vm"
  by (auto simp add: MemRead_def CheckKey_def getchar_def split: if_splits list.splits)

lemma MemRead_no_poll:
  "MemRead vm addr = Inr (v, vm1) \<Longrightarrow> addr \<noteq> kKeyboardStatus \<Longrightarrow> vm1 = vm \<and> v = memory vm addr"
  by (auto simp add: MemRead_def split: if_splits)

text \<open>
  The word a read of the status address returns is 0x8000 or 0, and neither is the
  status address nor outside the array: a read through it does not poll.
\<close>

lemma MemRead_status_value:
  assumes "MemRead vm kKeyboardStatus = Inr (v, vm1)"
  shows "(v = push_bit 15 1 \<or> v = 0) \<and> unat v \<noteq> kKeyboardStatus \<and> unat v < kMaxMemory"
proof -
  from assms have "v = push_bit 15 1 \<or> v = 0"
    by (auto simp add: MemRead_status split: list.splits)
  then show ?thesis by (auto simp add: const_defs)
qed

text \<open>
  C1, as the specification states it, fails: a read at 0x3000 with a character
  waiting returns the word and leaves the status and data cells alone.
\<close>

theorem C1_counterexample:
  "stdin (VM_new [0x61]) \<noteq> [] \<and>
   MemRead (VM_new [0x61]) 0x3000 = Inr (0, VM_new [0x61]) \<and>
   \<not> bit (memory (VM_new [0x61]) kKeyboardStatus) 15 \<and>
   memory (VM_new [0x61]) kKeyboardData \<noteq> 0x61"
  by (simp add: MemRead_def VM_new_def const_defs)

text \<open>
  C1, amended. A read polls the keyboard only when its address is the status address
  0xFE00. With input waiting on the descriptor, the status cell becomes 0x8000 (bit
  15 set), \<open>getchar\<close> hands out one character, which is stored in the data cell
  0xFE02, and 0x8000 is returned; the character is the oldest one the C library holds
  in its buffer, or, with that buffer empty, the oldest one waiting, and then the
  rest of the waiting input moves into the buffer, where the next poll does not see
  it. With no input waiting on the descriptor, the status cell is cleared and 0 is
  returned. A read at any other address inside the array returns the word there and
  changes nothing; a read outside the array is out of bounds. Each of the two reads
  of LDI follows this rule: a first read at 0xFE00 polls, and the second read, at
  the word returned, does not; a first read elsewhere that returns 0xFE00 makes the
  second read poll; with neither address at 0xFE00, LDI loads through the two cells
  with memory and input unchanged.
\<close>

theorem C1_poll_only_at_status:
  "MemRead vm kKeyboardStatus =
     (case stdin vm of
        [] \<Rightarrow> Inr (0, vm\<lparr>memory := (memory vm)(kKeyboardStatus := 0)\<rparr>)
      | c # cs \<Rightarrow>
          (case stdio_buf vm of
             [] \<Rightarrow>
               Inr (push_bit 15 1,
                    vm\<lparr>memory := (memory vm)(kKeyboardStatus := push_bit 15 1,
                                              kKeyboardData := word_of_int c),
                       stdin := [], stdio_buf := cs\<rparr>)
           | b # bs \<Rightarrow>
               Inr (push_bit 15 1,
                    vm\<lparr>memory := (memory vm)(kKeyboardStatus := push_bit 15 1,
                                              kKeyboardData := word_of_int b),
                       stdio_buf := bs\<rparr>))) \<and>
   bit (push_bit 15 1 :: u16) 15 \<and>
   (addr \<noteq> kKeyboardStatus \<and> addr < kMaxMemory \<longrightarrow>
      MemRead vm addr = Inr (memory vm addr, vm)) \<and>
   (kMaxMemory \<le> addr \<longrightarrow> MemRead vm addr = Inl OutOfBounds) \<and>
   (unat (reg vm kRPC + SignExtend (instr AND 0x1FF) 9) = kKeyboardStatus \<longrightarrow>
      exec_Ldi vm instr =
        (case MemRead vm kKeyboardStatus of
           Inl e \<Rightarrow> Inl e
         | Inr (v, vm1) \<Rightarrow>
             Inr (UpdateFlag (set_reg vm1 (unat (R0 instr)) (memory vm1 (unat v)))
                    (unat (R0 instr))))) \<and>
   (unat (reg vm kRPC + SignExtend (instr AND 0x1FF) 9) = a \<and> a \<noteq> kKeyboardStatus \<and>
    a < kMaxMemory \<and> unat (memory vm a) = kKeyboardStatus \<longrightarrow>
      exec_Ldi vm instr =
        (case MemRead vm kKeyboardStatus of
           Inl e \<Rightarrow> Inl e
         | Inr (v, vm2) \<Rightarrow> Inr (UpdateFlag (set_reg vm2 (unat (R0 instr)) v) (unat (R0 instr))))) \<and>
   (unat (reg vm kRPC + SignExtend (instr AND 0x1FF) 9) = a \<and> a \<noteq> kKeyboardStatus \<and>
    a < kMaxMemory \<and> unat (memory vm a) = b \<and> b \<noteq> kKeyboardStatus \<and> b < kMaxMemory \<longrightarrow>
      exec_Ldi vm instr =
        Inr (UpdateFlag (set_reg vm (unat (R0 instr)) (memory vm b)) (unat (R0 instr)))) \<and>
   (unat (reg vm kRPC + SignExtend (instr AND 0x1FF) 9) = a \<and>
    (kMaxMemory \<le> a \<or> a \<noteq> kKeyboardStatus \<and> kMaxMemory \<le> unat (memory vm a)) \<longrightarrow>
      exec_Ldi vm instr = Inl OutOfBounds)"
proof -
  have 1: "bit (push_bit 15 1 :: u16) 15" by (simp add: bit_simps)
  have 2: "exec_Ldi vm instr =
        (case MemRead vm kKeyboardStatus of
           Inl e \<Rightarrow> Inl e
         | Inr (v, vm1) \<Rightarrow>
             Inr (UpdateFlag (set_reg vm1 (unat (R0 instr)) (memory vm1 (unat v)))
                    (unat (R0 instr))))"
    if "unat (reg vm kRPC + SignExtend (instr AND 0x1FF) 9) = kKeyboardStatus"
  proof (cases "MemRead vm kKeyboardStatus")
    case (Inl e)
    with that show ?thesis by (simp add: exec_Ldi_def Let_def)
  next
    case (Inr r)
    obtain v vm1 where r: "r = (v, vm1)" by (cases r)
    from MemRead_status_value [of vm v vm1] Inr r
    have "MemRead vm1 (unat v) = Inr (memory vm1 (unat v), vm1)"
      by (simp add: MemRead_other)
    with that Inr r show ?thesis by (simp add: exec_Ldi_def Let_def)
  qed
  have 3: "exec_Ldi vm instr = Inl OutOfBounds"
    if "unat (reg vm kRPC + SignExtend (instr AND 0x1FF) 9) = a"
      "kMaxMemory \<le> a \<or> a \<noteq> kKeyboardStatus \<and> kMaxMemory \<le> unat (memory vm a)"
  proof (cases "kMaxMemory \<le> a")
    case True
    with that(1) show ?thesis by (simp add: exec_Ldi_def Let_def MemRead_out_of_bounds)
  next
    case False
    with that show ?thesis
      by (simp add: exec_Ldi_def Let_def MemRead_other MemRead_out_of_bounds)
  qed
  show ?thesis
    using 1 2 3 MemRead_status [of vm] MemRead_other [of addr vm] MemRead_out_of_bounds [of addr vm]
    by (auto simp add: exec_Ldi_def Let_def MemRead_other)
qed

theorem C1_poll_only_at_status_witness:
  "MemRead (VM_new [0x61, 0x62]) kKeyboardStatus =
     Inr (0x8000, (VM_new [0x61, 0x62])\<lparr>memory := (\<lambda>_. 0)(0xFE00 := 0x8000, 0xFE02 := 0x61),
                                          stdin := [], stdio_buf := [0x62]\<rparr>) \<and>
   MemRead ((VM_new [0x61, 0x62])\<lparr>memory := (\<lambda>_. 0)(0xFE00 := 0x8000, 0xFE02 := 0x61),
                                   stdin := [], stdio_buf := [0x62]\<rparr>) kKeyboardStatus =
     Inr (0, (VM_new [0x61, 0x62])\<lparr>memory := (\<lambda>_. 0)(0xFE02 := 0x61, 0xFE00 := 0),
                                     stdin := [], stdio_buf := [0x62]\<rparr>) \<and>
   (0x3000 \<noteq> kKeyboardStatus \<and> 0x3000 < kMaxMemory) \<and>
   MemRead (VM_new [0x61]) 0x3000 = Inr (0, VM_new [0x61]) \<and>
   MemRead (VM_new [0x61]) 0xFFFF = Inl OutOfBounds \<and>
   (case exec_Ldi ((VM_new [0x61])\<lparr>reg := (\<lambda>_. 0)(kRPC := 0xFE00)\<rparr>) 0xA000 of
      Inl e \<Rightarrow> False
    | Inr vm' \<Rightarrow> reg vm' 0 = 0 \<and> memory vm' kKeyboardStatus = 0x8000 \<and>
        memory vm' kKeyboardData = 0x61 \<and> stdin vm' = []) \<and>
   (case exec_Ldi ((VM_new [0x61])\<lparr>memory := (\<lambda>_. 0)(0x0001 := 0xFE00)\<rparr>) 0xA001 of
      Inl e \<Rightarrow> False
    | Inr vm' \<Rightarrow> reg vm' 0 = 0x8000 \<and> memory vm' kKeyboardData = 0x61 \<and> stdin vm' = []) \<and>
   exec_Ldi (VM_new [0x61]) 0xA000 = Inr (UpdateFlag (set_reg (VM_new [0x61]) 0 0) 0) \<and>
   exec_Ldi ((VM_new [0x61])\<lparr>reg := (\<lambda>_. 0)(kRPC := 0xFFFF)\<rparr>) 0xA000 = Inl OutOfBounds"
proof -
  define vm2 where "vm2 = VM_new [0x61, 0x62]"
  define vm2' where "vm2' = vm2\<lparr>memory := (\<lambda>_. 0)(0xFE00 := 0x8000, 0xFE02 := 0x61),
                               stdin := [], stdio_buf := [0x62]\<rparr>"
  define vmS where "vmS = (VM_new [0x61])\<lparr>reg := (\<lambda>_. 0)(kRPC := 0xFE00)\<rparr>"
  define vmK where "vmK = (VM_new [0x61])\<lparr>memory := (\<lambda>_. 0)(0x0001 := 0xFE00)\<rparr>"
  define vmF where "vmF = (VM_new [0x61])\<lparr>reg := (\<lambda>_. 0)(kRPC := 0xFFFF)\<rparr>"
  note st = C1_poll_only_at_status [THEN conjunct1]
  have 1: "MemRead vm2 kKeyboardStatus = Inr (0x8000, vm2')"
    using st [of vm2] by (simp add: vm2_def vm2'_def VM_new_def const_defs)
  have 2: "MemRead vm2' kKeyboardStatus =
      Inr (0, vm2\<lparr>memory := (\<lambda>_. 0)(0xFE02 := 0x61, 0xFE00 := 0),
                   stdin := [], stdio_buf := [0x62]\<rparr>)"
    using st [of vm2'] by (simp add: vm2_def vm2'_def VM_new_def const_defs)
  have h: "(0x3000::nat) \<noteq> kKeyboardStatus \<and> (0x3000::nat) < kMaxMemory"
    by (simp add: const_defs)
  have 3: "MemRead (VM_new [0x61]) 0x3000 = Inr (0, VM_new [0x61])"
    using C1_poll_only_at_status [of "VM_new [0x61]" "0x3000" 0 0 0] h
    by (simp add: VM_new_def)
  have 4: "MemRead (VM_new [0x61]) 0xFFFF = Inl OutOfBounds"
    using C1_poll_only_at_status [of "VM_new [0x61]" "0xFFFF" 0 0 0]
    by (simp add: const_defs)
  have s1: "unat (reg vmS kRPC + SignExtend (0xA000 AND 0x1FF) 9) = kKeyboardStatus"
    by (simp add: vmS_def VM_new_def SignExtend_def const_defs)
  have "exec_Ldi vmS 0xA000 =
        (case MemRead vmS kKeyboardStatus of
           Inl e \<Rightarrow> Inl e
         | Inr (v, vm1) \<Rightarrow>
             Inr (UpdateFlag (set_reg vm1 (unat (R0 0xA000)) (memory vm1 (unat v)))
                    (unat (R0 0xA000))))"
    using C1_poll_only_at_status [of vmS 0 "0xA000" 0 0] s1 by blast
  then have 5: "case exec_Ldi vmS 0xA000 of
      Inl e \<Rightarrow> False
    | Inr vm' \<Rightarrow> reg vm' 0 = 0 \<and> memory vm' kKeyboardStatus = 0x8000 \<and>
        memory vm' kKeyboardData = 0x61 \<and> stdin vm' = []"
    using st [of vmS]
    by (simp add: vmS_def VM_new_def R0_def UpdateFlag_def set_reg_def const_defs)
  have k: "unat (reg vmK kRPC + SignExtend (0xA001 AND 0x1FF) 9) = 1 \<and>
           (1::nat) \<noteq> kKeyboardStatus \<and> (1::nat) < kMaxMemory \<and>
           unat (memory vmK 1) = kKeyboardStatus"
    by (simp add: vmK_def VM_new_def SignExtend_def const_defs)
  have "exec_Ldi vmK 0xA001 =
        (case MemRead vmK kKeyboardStatus of
           Inl e \<Rightarrow> Inl e
         | Inr (v, vm2) \<Rightarrow> Inr (UpdateFlag (set_reg vm2 (unat (R0 0xA001)) v) (unat (R0 0xA001))))"
    using C1_poll_only_at_status [of vmK 0 "0xA001" 1 0] k by blast
  then have 6: "case exec_Ldi vmK 0xA001 of
      Inl e \<Rightarrow> False
    | Inr vm' \<Rightarrow> reg vm' 0 = 0x8000 \<and> memory vm' kKeyboardData = 0x61 \<and> stdin vm' = []"
    using st [of vmK]
    by (simp add: vmK_def VM_new_def R0_def UpdateFlag_def set_reg_def const_defs)
  have l: "unat (reg (VM_new [0x61]) kRPC + SignExtend (0xA000 AND 0x1FF) 9) = 0 \<and>
           (0::nat) \<noteq> kKeyboardStatus \<and> (0::nat) < kMaxMemory \<and>
           unat (memory (VM_new [0x61]) 0) = 0 \<and> (0::nat) \<noteq> kKeyboardStatus \<and>
           (0::nat) < kMaxMemory"
    by (simp add: VM_new_def SignExtend_def const_defs)
  have 7: "exec_Ldi (VM_new [0x61]) 0xA000 = Inr (UpdateFlag (set_reg (VM_new [0x61]) 0 0) 0)"
    using C1_poll_only_at_status [of "VM_new [0x61]" 0 "0xA000" 0 0] l
    by (simp add: VM_new_def R0_def)
  have f: "unat (reg vmF kRPC + SignExtend (0xA000 AND 0x1FF) 9) = 0xFFFF \<and>
           kMaxMemory \<le> (0xFFFF::nat)"
    by (simp add: vmF_def VM_new_def SignExtend_def const_defs)
  have 8: "exec_Ldi vmF 0xA000 = Inl OutOfBounds"
    using C1_poll_only_at_status [of vmF 0 "0xA000" "0xFFFF" 0] f by blast
  show ?thesis
    using 1 2 3 4 5 6 7 8 h
    by (simp add: vm2_def vm2'_def vmS_def vmK_def vmF_def)
qed

section \<open>The size of the memory\<close>

text \<open>
  C2. The array \<open>memory_\<close> has \<open>kMaxMemory = 65535\<close> words, indices 0 to 65534: a read
  or a store at address 0xFFFF is outside it. The image 30 00 92 7F 60 40 (origin
  0x3000: \<open>NOT R1,R1\<close>, then \<open>LDR R0,R1,#0\<close>) loads, and its second instruction reads
  \<open>memory_[0xFFFF]\<close>.
\<close>

theorem C2_last_address_out_of_bounds:
  "kMaxMemory = 65535 \<and>
   MemRead vm 0xFFFF = Inl OutOfBounds \<and>
   mem_write vm 0xFFFF v = Inl OutOfBounds \<and>
   (case LoadImage (VM_new []) (Some [0x30, 0x00, 0x92, 0x7F, 0x60, 0x40]) 6 of
      Inl e \<Rightarrow> False
    | Inr (ok, vm1) \<Rightarrow> ok \<and> Run 2 vm1 = Inl OutOfBounds)"
proof -
  have "case LoadImage (VM_new []) (Some [0x30, 0x00, 0x92, 0x7F, 0x60, 0x40]) 6 of
      Inl e \<Rightarrow> False
    | Inr (ok, vm1) \<Rightarrow> ok \<and> Run 2 vm1 = Inl OutOfBounds"
    by (simp add: load_eval step_eval exec_Not_def exec_Ldr_def)
  then show ?thesis
    by (simp add: MemRead_def mem_write_def const_defs)
qed

section \<open>Frame properties of the operations\<close>


lemma UpdateFlag_frame:
  "memory (UpdateFlag vm r) = memory vm \<and> stdin (UpdateFlag vm r) = stdin vm \<and>
   stdout (UpdateFlag vm r) = stdout vm"
  by (simp add: UpdateFlag_def set_reg_def)



lemma fetch_frame:
  assumes "fetch vm = Inr (instr, vm1)"
  shows "reg vm1 = (reg vm)(kRPC := reg vm kRPC + 1)" and "stdout vm1 = stdout vm"
  using assms MemRead_frame [of "set_reg vm kRPC (reg vm kRPC + 1)" "unat (reg vm kRPC)" instr vm1]
  by (simp_all add: fetch_def Let_def set_reg_def)

lemma fetch_no_poll:
  assumes "fetch vm = Inr (instr, vm1)" "unat (reg vm kRPC) \<noteq> kKeyboardStatus"
  shows "memory vm1 = memory vm \<and> stdin vm1 = stdin vm \<and> instr = memory vm (unat (reg vm kRPC))"
  using assms MemRead_no_poll [of "set_reg vm kRPC (reg vm kRPC + 1)" "unat (reg vm kRPC)" instr vm1]
  by (simp add: fetch_def Let_def set_reg_def)



lemma execute_dispatch:
  "drop_bit 12 instr = kOpAdd \<Longrightarrow> execute vm instr = Inr (True, exec_Add vm instr)"
  "drop_bit 12 instr = kOpAnd \<Longrightarrow> execute vm instr = Inr (True, exec_And vm instr)"
  "drop_bit 12 instr = kOpBr \<Longrightarrow> execute vm instr = Inr (True, exec_Br vm instr)"
  "drop_bit 12 instr = kOpJmp \<Longrightarrow> execute vm instr = Inr (True, exec_Jmp vm instr)"
  "drop_bit 12 instr = kOpJsr \<Longrightarrow> execute vm instr = Inr (True, exec_Jsr vm instr)"
  "drop_bit 12 instr = kOpLd \<Longrightarrow> execute vm instr = lift_case (exec_Ld vm instr)"
  "drop_bit 12 instr = kOpLdi \<Longrightarrow> execute vm instr = lift_case (exec_Ldi vm instr)"
  "drop_bit 12 instr = kOpLdr \<Longrightarrow> execute vm instr = lift_case (exec_Ldr vm instr)"
  "drop_bit 12 instr = kOpLea \<Longrightarrow> execute vm instr = Inr (True, exec_Lea vm instr)"
  "drop_bit 12 instr = kOpNot \<Longrightarrow> execute vm instr = Inr (True, exec_Not vm instr)"
  "drop_bit 12 instr = kOpRti \<Longrightarrow> execute vm instr = Inr (False, printf ''bad opcode'' vm)"
  "drop_bit 12 instr = kOpRes \<Longrightarrow> execute vm instr = Inr (False, printf ''bad opcode'' vm)"
  "drop_bit 12 instr = kOpSt \<Longrightarrow> execute vm instr = lift_case (exec_St vm instr)"
  "drop_bit 12 instr = kOpSti \<Longrightarrow> execute vm instr = lift_case (exec_Sti vm instr)"
  "drop_bit 12 instr = kOpStr \<Longrightarrow> execute vm instr = lift_case (exec_Str vm instr)"
  "drop_bit 12 instr = kOpTrap \<Longrightarrow> execute vm instr = exec_Trap vm instr"
  by (simp_all add: execute_def op_defs)

lemma opcode_cases:
  obtains "drop_bit 12 instr = kOpAdd" | "drop_bit 12 instr = kOpAnd" | "drop_bit 12 instr = kOpBr"
  | "drop_bit 12 instr = kOpJmp" | "drop_bit 12 instr = kOpJsr" | "drop_bit 12 instr = kOpLd"
  | "drop_bit 12 instr = kOpLdi" | "drop_bit 12 instr = kOpLdr" | "drop_bit 12 instr = kOpLea"
  | "drop_bit 12 instr = kOpNot" | "drop_bit 12 instr = kOpRti" | "drop_bit 12 instr = kOpRes"
  | "drop_bit 12 instr = kOpSt" | "drop_bit 12 instr = kOpSti" | "drop_bit 12 instr = kOpStr"
  | "drop_bit 12 instr = kOpTrap"
  using op_cases [of instr] unfolding op_defs by (simp only: insert_iff empty_iff) blast

lemma lift_case_Inr: "lift_case r = Inr (b, vm') \<longleftrightarrow> b \<and> r = Inr vm'"
  by (auto simp add: lift_case_def split: sum.splits)









lemma getchar_frame:
  "getchar v = Inr (c, v1) \<Longrightarrow> reg v1 = reg v \<and> memory v1 = memory v \<and> stdout v1 = stdout v"
  by (auto simp add: getchar_def split: list.splits)

lemma exec_Trap_dispatch:
  "instr AND 0xFF = kTrapGetc \<Longrightarrow> exec_Trap vm instr =
     (case getchar vm of
        Inl e \<Rightarrow> Inl e
      | Inr (c, vm1) \<Rightarrow> Inr (True, UpdateFlag (set_reg vm1 kR0 (word_of_int c)) kR0))"
  "instr AND 0xFF = kTrapOut \<Longrightarrow> exec_Trap vm instr = Inr (True, putc (uint (reg vm kR0)) vm)"
  "instr AND 0xFF = kTrapPuts \<Longrightarrow> exec_Trap vm instr =
     (case puts_loop vm (unat (reg vm kR0)) of Inl e \<Rightarrow> Inl e | Inr vm1 \<Rightarrow> Inr (True, vm1))"
  "instr AND 0xFF = kTrapIn \<Longrightarrow> exec_Trap vm instr =
     (case getchar (printf ''Enter a character: '' vm) of
        Inl e \<Rightarrow> Inl e
      | Inr (i, vm1) \<Rightarrow>
          (let c = signed_take_bit 7 i
           in Inr (True, UpdateFlag (set_reg (putc c vm1) kR0 (word_of_int c)) kR0)))"
  "instr AND 0xFF = kTrapPutsp \<Longrightarrow> exec_Trap vm instr =
     (case putsp_loop vm (unat (reg vm kR0)) of Inl e \<Rightarrow> Inl e | Inr vm1 \<Rightarrow> Inr (True, vm1))"
  "instr AND 0xFF = kTrapHalt \<Longrightarrow> exec_Trap vm instr = Inr (False, printf (''halt'' @ [CHR 0x0A]) vm)"
  "instr AND 0xFF \<notin> {kTrapGetc, kTrapOut, kTrapPuts, kTrapIn, kTrapPutsp, kTrapHalt} \<Longrightarrow>
     exec_Trap vm instr = Inr (True, vm)"
  by (simp_all add: exec_Trap_def trap_defs Let_def)


lemma trap_code_cases:
  obtains "instr AND 0xFF = kTrapGetc" | "instr AND 0xFF = kTrapOut" | "instr AND 0xFF = kTrapPuts"
  | "instr AND 0xFF = kTrapIn" | "instr AND 0xFF = kTrapPutsp" | "instr AND 0xFF = kTrapHalt"
  | "instr AND 0xFF \<notin> {kTrapGetc, kTrapOut, kTrapPuts, kTrapIn, kTrapPutsp, kTrapHalt}"
  by blast


lemma exec_Trap_running:
  assumes "exec_Trap vm instr = Inr (running, vm')"
  shows "running \<longleftrightarrow> instr AND 0xFF \<noteq> kTrapHalt"
proof (cases instr rule: trap_code_cases)
  case 1 then show ?thesis using assms
    by (auto simp add: exec_Trap_dispatch(1) trap_defs split: sum.splits)
next
  case 2 then show ?thesis using assms
    by (auto simp add: exec_Trap_dispatch(2) trap_defs)
next
  case 3 then show ?thesis using assms
    by (auto simp add: exec_Trap_dispatch(3) trap_defs split: sum.splits)
next
  case 4 then show ?thesis using assms
    by (auto simp add: exec_Trap_dispatch(4) trap_defs Let_def split: sum.splits)
next
  case 5 then show ?thesis using assms
    by (auto simp add: exec_Trap_dispatch(5) trap_defs split: sum.splits)
next
  case 6 then show ?thesis using assms
    by (auto simp add: exec_Trap_dispatch(6))
next
  case 7 then show ?thesis using assms
    by (auto simp add: exec_Trap_dispatch(7))
qed







lemma execute_running:
  assumes "execute vm instr = Inr (running, vm')"
  shows "\<not> running \<longleftrightarrow>
           drop_bit 12 instr = kOpRti \<or> drop_bit 12 instr = kOpRes \<or>
           (drop_bit 12 instr = kOpTrap \<and> instr AND 0xFF = kTrapHalt)"
proof (cases instr rule: opcode_cases)
  case 16
  with assms have t: "exec_Trap vm instr = Inr (running, vm')"
    by (simp add: execute_dispatch)
  from 16 exec_Trap_running [OF t] show ?thesis by (simp add: op_defs)
qed (use assms in \<open>auto simp add: execute_dispatch lift_case_Inr op_defs\<close>)

section \<open>Condition flags\<close>



section \<open>Reserved opcodes\<close>

lemma fetch_at_status:
  assumes "fetch vm = Inr (instr, vm1)" "unat (reg vm kRPC) = kKeyboardStatus" "instr \<noteq> 0"
  shows "instr = push_bit 15 1 \<and> stdin vm \<noteq> [] \<and>
         (\<exists>c v. getchar vm = Inr (c, v) \<and>
            memory vm1 = (memory vm)(kKeyboardStatus := push_bit 15 1,
                                      kKeyboardData := word_of_int c) \<and>
            stdin vm1 = stdin v \<and> stdio_buf vm1 = stdio_buf v)"
proof -
  from assms(1,2) have m: "MemRead (set_reg vm kRPC (reg vm kRPC + 1)) kKeyboardStatus = Inr (instr, vm1)"
    by (simp add: fetch_def Let_def)
  show ?thesis
  proof (cases "stdin vm")
    case Nil
    with m assms(3) show ?thesis by (simp add: MemRead_status set_reg_def)
  next
    case (Cons c cs)
    with m show ?thesis
      by (cases "stdio_buf vm") (auto simp add: MemRead_status set_reg_def getchar_def)
  qed
qed

text \<open>
  C6, as the specification states it, fails in the states whose program counter is
  the keyboard status address 0xFE00 while a key is waiting: the fetch there polls
  the keyboard, reads 0x8000, an RTI, and has by then rewritten the status cell and
  the data cell and consumed the key. The second part reaches such a state from a
  loaded image: \<open>LD R1,#1\<close>, \<open>JMP R1\<close> and the word 0xFE00 at origin 0x3000.
\<close>

theorem C6_counterexample:
  "memory (set_reg (Run_init (VM_new [0x61])) kRPC 0xFE00) kKeyboardStatus = 0 \<and>
   memory (set_reg (Run_init (VM_new [0x61])) kRPC 0xFE00) kKeyboardData = 0 \<and>
   stdin (set_reg (Run_init (VM_new [0x61])) kRPC 0xFE00) = [0x61] \<and>
   (case fetch (set_reg (Run_init (VM_new [0x61])) kRPC 0xFE00) of
      Inl e \<Rightarrow> False
    | Inr (instr, vm1) \<Rightarrow> instr = 0x8000 \<and> drop_bit 12 instr = kOpRti) \<and>
   (case step (set_reg (Run_init (VM_new [0x61])) kRPC 0xFE00) of
      Inl e \<Rightarrow> False
    | Inr (running, vm') \<Rightarrow>
        \<not> running \<and> memory vm' kKeyboardStatus = 0x8000 \<and>
        memory vm' kKeyboardData = 0x61 \<and> stdin vm' = [] \<and> stdout vm' = ''bad opcode'') \<and>
   (case LoadImage (VM_new [0x61]) (Some [0x30, 0x00, 0x22, 0x01, 0xC0, 0x40, 0xFE, 0x00]) 8 of
      Inl e \<Rightarrow> False
    | Inr (ok, vm) \<Rightarrow>
        ok \<and> memory vm 0xFE00 = 0 \<and> memory vm 0xFE02 = 0 \<and>
        (case Run 3 vm of
           Inl e \<Rightarrow> False
         | Inr None \<Rightarrow> False
         | Inr (Some vm') \<Rightarrow>
             memory vm' 0xFE00 = 0x8000 \<and> memory vm' 0xFE02 = 0x61 \<and> stdin vm' = [] \<and>
             reg vm' kRPC = 0xFE01 \<and> stdout vm' = ''bad opcode''))"
  by (simp add: load_eval step_eval exec_Ld_def exec_Jmp_def)

text \<open>
  C6, amended. When the fetched instruction has opcode 0x8 (RTI) or 0xD (reserved),
  executing it writes the diagnostic \<open>bad opcode\<close>, sets \<open>running\<close> to false and
  changes nothing else. The fetch before it has advanced the program counter by one
  and left the eight general registers, the condition register and the output
  alone. When the program counter was not 0xFE00, the fetch has left memory and the
  input alone too. When it was 0xFE00, the instruction is 0x8000, a key was waiting,
  and the fetch has set the status cell to 0x8000, stored the character \<open>getchar\<close>
  handed out in the data cell 0xFE02 and consumed it; the rest of memory is
  unchanged.
\<close>

theorem C6_reserved_opcode:
  assumes "fetch vm = Inr (instr, vm1)"
    and "drop_bit 12 instr = kOpRti \<or> drop_bit 12 instr = kOpRes"
  shows "execute vm1 instr = Inr (False, vm1\<lparr>stdout := stdout vm1 @ ''bad opcode''\<rparr>) \<and>
         step vm = Inr (False, vm1\<lparr>stdout := stdout vm1 @ ''bad opcode''\<rparr>) \<and>
         stdout vm1 = stdout vm \<and>
         (\<forall>i < 8. reg vm1 i = reg vm i) \<and>
         reg vm1 kRCond = reg vm kRCond \<and>
         reg vm1 kRPC = reg vm kRPC + 1 \<and>
         (unat (reg vm kRPC) \<noteq> kKeyboardStatus \<longrightarrow>
            memory vm1 = memory vm \<and> stdin vm1 = stdin vm \<and> stdio_buf vm1 = stdio_buf vm) \<and>
         (unat (reg vm kRPC) = kKeyboardStatus \<longrightarrow>
            instr = push_bit 15 1 \<and> stdin vm \<noteq> [] \<and>
            (\<exists>c v. getchar vm = Inr (c, v) \<and>
               memory vm1 = (memory vm)(kKeyboardStatus := push_bit 15 1,
                                         kKeyboardData := word_of_int c) \<and>
               stdin vm1 = stdin v \<and> stdio_buf vm1 = stdio_buf v))"
proof -
  have e: "execute vm1 instr = Inr (False, vm1\<lparr>stdout := stdout vm1 @ ''bad opcode''\<rparr>)"
    using assms(2) by (auto simp add: execute_dispatch printf_def)
  then have s: "step vm = Inr (False, vm1\<lparr>stdout := stdout vm1 @ ''bad opcode''\<rparr>)"
    using assms(1) by (simp add: step_def)
  have r: "reg vm1 = (reg vm)(kRPC := reg vm kRPC + 1)" and o: "stdout vm1 = stdout vm"
    using fetch_frame [OF assms(1)] by simp_all
  have m: "unat (reg vm kRPC) \<noteq> kKeyboardStatus \<Longrightarrow>
      memory vm1 = memory vm \<and> stdin vm1 = stdin vm \<and> stdio_buf vm1 = stdio_buf vm"
    using MemRead_no_poll [of "set_reg vm kRPC (reg vm kRPC + 1)" "unat (reg vm kRPC)" instr vm1]
      assms(1)
    by (simp add: fetch_def Let_def set_reg_def)
  have nz: "instr \<noteq> 0" using assms(2) by (auto simp add: op_defs)
  have p: "unat (reg vm kRPC) = kKeyboardStatus \<Longrightarrow>
      instr = push_bit 15 1 \<and> stdin vm \<noteq> [] \<and>
      (\<exists>c v. getchar vm = Inr (c, v) \<and>
         memory vm1 = (memory vm)(kKeyboardStatus := push_bit 15 1,
                                   kKeyboardData := word_of_int c) \<and>
         stdin vm1 = stdin v \<and> stdio_buf vm1 = stdio_buf v)"
    using fetch_at_status [OF assms(1) _ nz] by simp
  show ?thesis using e s o m p by (simp add: r const_defs)
qed

theorem C6_reserved_opcode_witness:
  "(case step (Run_init ((VM_new [])\<lparr>memory := (\<lambda>_. 0)(0x3000 := 0x8000)\<rparr>)) of
      Inl e \<Rightarrow> False
    | Inr (running, vm') \<Rightarrow>
        \<not> running \<and> stdout vm' = ''bad opcode'' \<and>
        memory vm' = (\<lambda>_. 0)(0x3000 := 0x8000) \<and>
        reg vm' 0 = 0 \<and> reg vm' kRCond = kFlZro \<and> reg vm' kRPC = 0x3001) \<and>
   (case step (Run_init ((VM_new [])\<lparr>memory := (\<lambda>_. 0)(0x3000 := 0xD000)\<rparr>)) of
      Inl e \<Rightarrow> False
    | Inr (running, vm') \<Rightarrow> \<not> running \<and> stdout vm' = ''bad opcode'') \<and>
   (case step (set_reg (Run_init (VM_new [0x61, 0x62])) kRPC 0xFE00) of
      Inl e \<Rightarrow> False
    | Inr (running, vm') \<Rightarrow>
        \<not> running \<and> stdout vm' = ''bad opcode'' \<and>
        memory vm' = (\<lambda>_. 0)(kKeyboardStatus := 0x8000, kKeyboardData := 0x61) \<and>
        stdin vm' = [] \<and> stdio_buf vm' = [0x62] \<and> reg vm' kRPC = 0xFE01)"
proof -
  define vmA where "vmA = Run_init ((VM_new [])\<lparr>memory := (\<lambda>_. 0)(0x3000 := 0x8000)\<rparr>)"
  define vmB where "vmB = Run_init ((VM_new [])\<lparr>memory := (\<lambda>_. 0)(0x3000 := 0xD000)\<rparr>)"
  define vmC where "vmC = set_reg (Run_init (VM_new [0x61, 0x62])) kRPC 0xFE00"
  have "\<exists>vm1. fetch vmA = Inr (0x8000, vm1)"
    by (simp add: vmA_def VM_new_def step_eval)
  then obtain a1 where fa: "fetch vmA = Inr (0x8000, a1)" by blast
  have opa: "drop_bit 12 (0x8000 :: u16) = kOpRti \<or> drop_bit 12 (0x8000 :: u16) = kOpRes"
    by (simp add: op_defs)
  have pa: "unat (reg vmA kRPC) \<noteq> kKeyboardStatus"
    by (simp add: vmA_def VM_new_def Run_init_def set_reg_def const_defs)
  have va: "stdout vmA = [] \<and> memory vmA = (\<lambda>_. 0)(0x3000 := 0x8000) \<and> reg vmA 0 = 0 \<and>
            reg vmA kRCond = kFlZro \<and> reg vmA kRPC = 0x3000"
    by (simp add: vmA_def VM_new_def Run_init_def set_reg_def const_defs)
  have 1: "case step vmA of
      Inl e \<Rightarrow> False
    | Inr (running, vm') \<Rightarrow>
        \<not> running \<and> stdout vm' = ''bad opcode'' \<and>
        memory vm' = (\<lambda>_. 0)(0x3000 := 0x8000) \<and>
        reg vm' 0 = 0 \<and> reg vm' kRCond = kFlZro \<and> reg vm' kRPC = 0x3001"
    using C6_reserved_opcode [OF fa opa] pa va by simp
  have "\<exists>vm1. fetch vmB = Inr (0xD000, vm1)"
    by (simp add: vmB_def VM_new_def step_eval)
  then obtain b1 where fb: "fetch vmB = Inr (0xD000, b1)" by blast
  have opb: "drop_bit 12 (0xD000 :: u16) = kOpRti \<or> drop_bit 12 (0xD000 :: u16) = kOpRes"
    by (simp add: op_defs)
  have vb: "stdout vmB = []"
    by (simp add: vmB_def VM_new_def Run_init_def set_reg_def)
  have 2: "case step vmB of
      Inl e \<Rightarrow> False
    | Inr (running, vm') \<Rightarrow> \<not> running \<and> stdout vm' = ''bad opcode''"
    using C6_reserved_opcode [OF fb opb] vb by simp
  have "\<exists>vm1. fetch vmC = Inr (0x8000, vm1)"
    by (simp add: vmC_def VM_new_def step_eval)
  then obtain c1 where fc: "fetch vmC = Inr (0x8000, c1)" by blast
  have pc: "unat (reg vmC kRPC) = kKeyboardStatus \<and> reg vmC kRPC = 0xFE00"
    by (simp add: vmC_def VM_new_def Run_init_def set_reg_def const_defs)
  have vc: "stdout vmC = [] \<and> memory vmC = (\<lambda>_. 0) \<and>
            getchar vmC = Inr (0x61, vmC\<lparr>stdin := [], stdio_buf := [0x62]\<rparr>)"
    by (simp add: vmC_def VM_new_def Run_init_def set_reg_def getchar_def)
  have 3: "case step vmC of
      Inl e \<Rightarrow> False
    | Inr (running, vm') \<Rightarrow>
        \<not> running \<and> stdout vm' = ''bad opcode'' \<and>
        memory vm' = (\<lambda>_. 0)(kKeyboardStatus := 0x8000, kKeyboardData := 0x61) \<and>
        stdin vm' = [] \<and> stdio_buf vm' = [0x62] \<and> reg vm' kRPC = 0xFE01"
    using C6_reserved_opcode [OF fc opa] pc vc by auto
  show ?thesis using 1 2 3 by (simp only: vmA_def vmB_def vmC_def simp_thms)
qed

section \<open>The program counter\<close>

lemma step_pc_relative:
  assumes "fetch vm = Inr (instr, vm1)"
  shows "reg vm1 kRPC = reg vm kRPC + 1 \<and>
         unat (reg vm1 kRPC) = (unat (reg vm kRPC) + 1) mod 65536 \<and>
         fetch vm = MemRead (set_reg vm kRPC (reg vm kRPC + 1)) (unat (reg vm kRPC)) \<and>
         (drop_bit 12 instr = kOpBr \<longrightarrow>
            step vm = Inr (True,
              if reg vm kRCond AND ((drop_bit 9 instr) AND 0x7) \<noteq> 0
              then set_reg vm1 kRPC (reg vm kRPC + 1 + SignExtend (instr AND 0x1FF) 9)
              else vm1)) \<and>
         (drop_bit 12 instr = kOpLd \<longrightarrow>
            step vm = lift_case
              (case MemRead vm1 (unat (reg vm kRPC + 1 + SignExtend (instr AND 0x1FF) 9)) of
                 Inl e \<Rightarrow> Inl e
               | Inr (v, vm2) \<Rightarrow> Inr (UpdateFlag (set_reg vm2 (unat (R0 instr)) v) (unat (R0 instr))))) \<and>
         (drop_bit 12 instr = kOpLdi \<longrightarrow>
            step vm = lift_case
              (case MemRead vm1 (unat (reg vm kRPC + 1 + SignExtend (instr AND 0x1FF) 9)) of
                 Inl e \<Rightarrow> Inl e
               | Inr (a, vm2) \<Rightarrow>
                   (case MemRead vm2 (unat a) of
                      Inl e \<Rightarrow> Inl e
                    | Inr (v, vm3) \<Rightarrow>
                        Inr (UpdateFlag (set_reg vm3 (unat (R0 instr)) v) (unat (R0 instr)))))) \<and>
         (drop_bit 12 instr = kOpLea \<longrightarrow>
            step vm = Inr (True,
              UpdateFlag (set_reg vm1 (unat (R0 instr))
                            (reg vm kRPC + 1 + SignExtend (instr AND 0x1FF) 9)) (unat (R0 instr)))) \<and>
         (drop_bit 12 instr = kOpSt \<longrightarrow>
            step vm = lift_case
              (mem_write vm1 (unat (reg vm kRPC + 1 + SignExtend (instr AND 0x1FF) 9))
                 (reg vm (unat (R0 instr))))) \<and>
         (drop_bit 12 instr = kOpSti \<longrightarrow>
            step vm = lift_case
              (case MemRead vm1 (unat (reg vm kRPC + 1 + SignExtend (instr AND 0x1FF) 9)) of
                 Inl e \<Rightarrow> Inl e
               | Inr (a, vm2) \<Rightarrow> mem_write vm2 (unat a) (reg vm (unat (R0 instr))))) \<and>
         (drop_bit 12 instr = kOpJsr \<and> (drop_bit 11 instr) AND 0x1 \<noteq> 0 \<longrightarrow>
            step vm = Inr (True,
              set_reg (set_reg vm1 kR7 (reg vm kRPC + 1)) kRPC
                (reg vm kRPC + 1 + SignExtend (instr AND 0x7FF) 11)))"
proof -
  have r: "reg vm1 = (reg vm)(kRPC := reg vm kRPC + 1)"
    using fetch_frame [OF assms] by simp
  have pc: "reg vm1 kRPC = reg vm kRPC + 1" by (simp add: r)
  have cc: "reg vm1 kRCond = reg vm kRCond" by (simp add: r const_defs)
  have r0: "reg vm1 (unat (R0 instr)) = reg vm (unat (R0 instr))"
    using R0_lt [of instr] by (simp add: r const_defs)
  have w: "unat (reg vm1 kRPC) = (unat (reg vm kRPC) + 1) mod 65536"
    by (simp add: pc unat_word_ariths)
  have s: "step vm = execute vm1 instr" using assms by (simp add: step_def)
  have br: "drop_bit 12 instr = kOpBr \<Longrightarrow> step vm = Inr (True,
              if reg vm kRCond AND ((drop_bit 9 instr) AND 0x7) \<noteq> 0
              then set_reg vm1 kRPC (reg vm kRPC + 1 + SignExtend (instr AND 0x1FF) 9)
              else vm1)"
    by (simp add: s execute_dispatch exec_Br_def pc cc)
  have ld: "drop_bit 12 instr = kOpLd \<Longrightarrow> step vm = lift_case
              (case MemRead vm1 (unat (reg vm kRPC + 1 + SignExtend (instr AND 0x1FF) 9)) of
                 Inl e \<Rightarrow> Inl e
               | Inr (v, vm2) \<Rightarrow> Inr (UpdateFlag (set_reg vm2 (unat (R0 instr)) v) (unat (R0 instr))))"
    by (simp add: s execute_dispatch exec_Ld_def pc Let_def)
  have ldi: "drop_bit 12 instr = kOpLdi \<Longrightarrow> step vm = lift_case
              (case MemRead vm1 (unat (reg vm kRPC + 1 + SignExtend (instr AND 0x1FF) 9)) of
                 Inl e \<Rightarrow> Inl e
               | Inr (a, vm2) \<Rightarrow>
                   (case MemRead vm2 (unat a) of
                      Inl e \<Rightarrow> Inl e
                    | Inr (v, vm3) \<Rightarrow>
                        Inr (UpdateFlag (set_reg vm3 (unat (R0 instr)) v) (unat (R0 instr)))))"
    by (simp add: s execute_dispatch exec_Ldi_def pc Let_def)
  have lea: "drop_bit 12 instr = kOpLea \<Longrightarrow> step vm = Inr (True,
              UpdateFlag (set_reg vm1 (unat (R0 instr))
                            (reg vm kRPC + 1 + SignExtend (instr AND 0x1FF) 9)) (unat (R0 instr)))"
    by (simp add: s execute_dispatch exec_Lea_def pc Let_def)
  have st: "drop_bit 12 instr = kOpSt \<Longrightarrow> step vm = lift_case
              (mem_write vm1 (unat (reg vm kRPC + 1 + SignExtend (instr AND 0x1FF) 9))
                 (reg vm (unat (R0 instr))))"
    by (simp add: s execute_dispatch exec_St_def pc r0 Let_def)
  have sti: "drop_bit 12 instr = kOpSti \<Longrightarrow> step vm = lift_case
              (case MemRead vm1 (unat (reg vm kRPC + 1 + SignExtend (instr AND 0x1FF) 9)) of
                 Inl e \<Rightarrow> Inl e
               | Inr (a, vm2) \<Rightarrow> mem_write vm2 (unat a) (reg vm (unat (R0 instr))))"
  proof -
    assume op: "drop_bit 12 instr = kOpSti"
    have "reg vm2 (unat (R0 instr)) = reg vm (unat (R0 instr))"
      if "MemRead vm1 a = Inr (x, vm2)" for a x vm2
      using MemRead_frame [OF that] r0 by simp
    then show ?thesis
      by (auto simp add: s execute_dispatch op exec_Sti_def pc Let_def split: sum.splits)
  qed
  have jsr: "drop_bit 12 instr = kOpJsr \<and> (drop_bit 11 instr) AND 0x1 \<noteq> 0 \<Longrightarrow>
            step vm = Inr (True,
              set_reg (set_reg vm1 kR7 (reg vm kRPC + 1)) kRPC
                (reg vm kRPC + 1 + SignExtend (instr AND 0x7FF) 11))"
    using pc by (simp add: s execute_dispatch exec_Jsr_def Let_def set_reg_def const_defs)
  have f: "fetch vm = MemRead (set_reg vm kRPC (reg vm kRPC + 1)) (unat (reg vm kRPC))"
    by (simp add: fetch_def Let_def)
  show ?thesis using pc w f br ld ldi lea st sti jsr by blast
qed

text \<open>
  C7. The fetch increments the program counter by one, modulo 65536 (0xFFFF goes to
  0), before the instruction word is read and before the instruction executes. BR,
  LD, LDI, LEA, ST, STI and JSR then add their sign-extended offset to the
  incremented value: each result below is written with the program counter before
  the fetch, plus one.
\<close>

theorem C7_pc_increment:
  "fetch vm = MemRead (set_reg vm kRPC (reg vm kRPC + 1)) (unat (reg vm kRPC)) \<and>
   unat (reg (set_reg vm kRPC (reg vm kRPC + 1)) kRPC) = (unat (reg vm kRPC) + 1) mod 65536 \<and>
   (fetch vm = Inr (instr, vm1) \<longrightarrow>
      reg vm1 kRPC = reg vm kRPC + 1 \<and>
      (drop_bit 12 instr = kOpBr \<longrightarrow>
         step vm = Inr (True,
           if reg vm kRCond AND ((drop_bit 9 instr) AND 0x7) \<noteq> 0
           then set_reg vm1 kRPC (reg vm kRPC + 1 + SignExtend (instr AND 0x1FF) 9)
           else vm1)) \<and>
      (drop_bit 12 instr = kOpLd \<longrightarrow>
         step vm = lift_case
           (case MemRead vm1 (unat (reg vm kRPC + 1 + SignExtend (instr AND 0x1FF) 9)) of
              Inl e \<Rightarrow> Inl e
            | Inr (v, vm2) \<Rightarrow>
                Inr (UpdateFlag (set_reg vm2 (unat (R0 instr)) v) (unat (R0 instr))))) \<and>
      (drop_bit 12 instr = kOpLdi \<longrightarrow>
         step vm = lift_case
           (case MemRead vm1 (unat (reg vm kRPC + 1 + SignExtend (instr AND 0x1FF) 9)) of
              Inl e \<Rightarrow> Inl e
            | Inr (a, vm2) \<Rightarrow>
                (case MemRead vm2 (unat a) of
                   Inl e \<Rightarrow> Inl e
                 | Inr (v, vm3) \<Rightarrow>
                     Inr (UpdateFlag (set_reg vm3 (unat (R0 instr)) v) (unat (R0 instr)))))) \<and>
      (drop_bit 12 instr = kOpLea \<longrightarrow>
         step vm = Inr (True,
           UpdateFlag (set_reg vm1 (unat (R0 instr))
                         (reg vm kRPC + 1 + SignExtend (instr AND 0x1FF) 9)) (unat (R0 instr)))) \<and>
      (drop_bit 12 instr = kOpSt \<longrightarrow>
         step vm = lift_case
           (mem_write vm1 (unat (reg vm kRPC + 1 + SignExtend (instr AND 0x1FF) 9))
              (reg vm (unat (R0 instr))))) \<and>
      (drop_bit 12 instr = kOpSti \<longrightarrow>
         step vm = lift_case
           (case MemRead vm1 (unat (reg vm kRPC + 1 + SignExtend (instr AND 0x1FF) 9)) of
              Inl e \<Rightarrow> Inl e
            | Inr (a, vm2) \<Rightarrow> mem_write vm2 (unat a) (reg vm (unat (R0 instr))))) \<and>
      (drop_bit 12 instr = kOpJsr \<and> (drop_bit 11 instr) AND 0x1 \<noteq> 0 \<longrightarrow>
         step vm = Inr (True,
           set_reg (set_reg vm1 kR7 (reg vm kRPC + 1)) kRPC
             (reg vm kRPC + 1 + SignExtend (instr AND 0x7FF) 11))))"
proof -
  have a: "fetch vm = MemRead (set_reg vm kRPC (reg vm kRPC + 1)) (unat (reg vm kRPC))"
    by (simp add: fetch_def Let_def)
  have b: "unat (reg (set_reg vm kRPC (reg vm kRPC + 1)) kRPC) = (unat (reg vm kRPC) + 1) mod 65536"
    by (simp add: set_reg_def unat_word_ariths)
  show ?thesis using a b step_pc_relative [of vm instr vm1] by blast
qed

theorem C7_pc_increment_witness:
  "(case step (Run_init ((VM_new [])\<lparr>memory := (\<lambda>_. 0)(0x3000 := 0x0405)\<rparr>)) of
      Inl e \<Rightarrow> False | Inr (running, vm') \<Rightarrow> reg vm' kRPC = 0x3006) \<and>
   (case step (Run_init ((VM_new [])\<lparr>memory := (\<lambda>_. 0)(0x3000 := 0x2001, 0x3002 := 0x00AB)\<rparr>)) of
      Inl e \<Rightarrow> False | Inr (running, vm') \<Rightarrow> reg vm' 0 = 0x00AB) \<and>
   (case step (Run_init ((VM_new [])\<lparr>memory :=
        (\<lambda>_. 0)(0x3000 := 0xA001, 0x3002 := 0x3005, 0x3005 := 0x0077)\<rparr>)) of
      Inl e \<Rightarrow> False | Inr (running, vm') \<Rightarrow> reg vm' 0 = 0x0077) \<and>
   (case step (Run_init ((VM_new [])\<lparr>memory := (\<lambda>_. 0)(0x3000 := 0xE1FF)\<rparr>)) of
      Inl e \<Rightarrow> False | Inr (running, vm') \<Rightarrow> reg vm' 0 = 0x3000) \<and>
   (case step (Run_init ((VM_new [])\<lparr>memory := (\<lambda>_. 0)(0x3000 := 0x3001),
                                       reg := (\<lambda>_. 0)(0 := 0x1234)\<rparr>)) of
      Inl e \<Rightarrow> False | Inr (running, vm') \<Rightarrow> memory vm' 0x3002 = 0x1234) \<and>
   (case step (Run_init ((VM_new [])\<lparr>memory := (\<lambda>_. 0)(0x3000 := 0xB001, 0x3002 := 0x3005),
                                       reg := (\<lambda>_. 0)(0 := 0x1234)\<rparr>)) of
      Inl e \<Rightarrow> False | Inr (running, vm') \<Rightarrow> memory vm' 0x3005 = 0x1234) \<and>
   (case step (Run_init ((VM_new [])\<lparr>memory := (\<lambda>_. 0)(0x3000 := 0x4FFE)\<rparr>)) of
      Inl e \<Rightarrow> False | Inr (running, vm') \<Rightarrow> reg vm' kR7 = 0x3001 \<and> reg vm' kRPC = 0x2FFF) \<and>
   unat (reg (set_reg ((VM_new [])\<lparr>reg := (\<lambda>_. 0)(kRPC := 0xFFFF)\<rparr>) kRPC (0xFFFF + 1)) kRPC) = 0"
proof -
  define v1 where "v1 = Run_init ((VM_new [])\<lparr>memory := (\<lambda>_. 0)(0x3000 := 0x0405)\<rparr>)"
  define v2 where "v2 = Run_init ((VM_new [])\<lparr>memory := (\<lambda>_. 0)(0x3000 := 0x2001, 0x3002 := 0x00AB)\<rparr>)"
  define v3 where "v3 = Run_init ((VM_new [])\<lparr>memory :=
        (\<lambda>_. 0)(0x3000 := 0xA001, 0x3002 := 0x3005, 0x3005 := 0x0077)\<rparr>)"
  define v4 where "v4 = Run_init ((VM_new [])\<lparr>memory := (\<lambda>_. 0)(0x3000 := 0xE1FF)\<rparr>)"
  define v5 where "v5 = Run_init ((VM_new [])\<lparr>memory := (\<lambda>_. 0)(0x3000 := 0x3001),
                                       reg := (\<lambda>_. 0)(0 := 0x1234)\<rparr>)"
  define v6 where "v6 = Run_init ((VM_new [])\<lparr>memory := (\<lambda>_. 0)(0x3000 := 0xB001, 0x3002 := 0x3005),
                                       reg := (\<lambda>_. 0)(0 := 0x1234)\<rparr>)"
  define v7 where "v7 = Run_init ((VM_new [])\<lparr>memory := (\<lambda>_. 0)(0x3000 := 0x4FFE)\<rparr>)"
  have f1: "fetch v1 = Inr (0x0405, set_reg v1 kRPC 0x3001)"
    by (simp add: v1_def VM_new_def step_eval)
  have f2: "fetch v2 = Inr (0x2001, set_reg v2 kRPC 0x3001)"
    by (simp add: v2_def VM_new_def step_eval)
  have f3: "fetch v3 = Inr (0xA001, set_reg v3 kRPC 0x3001)"
    by (simp add: v3_def VM_new_def step_eval)
  have f4: "fetch v4 = Inr (0xE1FF, set_reg v4 kRPC 0x3001)"
    by (simp add: v4_def VM_new_def step_eval)
  have f5: "fetch v5 = Inr (0x3001, set_reg v5 kRPC 0x3001)"
    by (simp add: v5_def VM_new_def step_eval)
  have f6: "fetch v6 = Inr (0xB001, set_reg v6 kRPC 0x3001)"
    by (simp add: v6_def VM_new_def step_eval)
  have f7: "fetch v7 = Inr (0x4FFE, set_reg v7 kRPC 0x3001)"
    by (simp add: v7_def VM_new_def step_eval)
  have 1: "case step v1 of Inl e \<Rightarrow> False | Inr (running, vm') \<Rightarrow> reg vm' kRPC = 0x3006"
    using C7_pc_increment [of v1 "0x0405" "set_reg v1 kRPC 0x3001", THEN conjunct2,
        THEN conjunct2, THEN mp, OF f1, THEN conjunct2]
    by (simp add: v1_def VM_new_def state_eval)
  have 2: "case step v2 of Inl e \<Rightarrow> False | Inr (running, vm') \<Rightarrow> reg vm' 0 = 0x00AB"
    using C7_pc_increment [of v2 "0x2001" "set_reg v2 kRPC 0x3001", THEN conjunct2,
        THEN conjunct2, THEN mp, OF f2, THEN conjunct2]
    by (simp add: v2_def VM_new_def state_eval)
  have 3: "case step v3 of Inl e \<Rightarrow> False | Inr (running, vm') \<Rightarrow> reg vm' 0 = 0x0077"
    using C7_pc_increment [of v3 "0xA001" "set_reg v3 kRPC 0x3001", THEN conjunct2,
        THEN conjunct2, THEN mp, OF f3, THEN conjunct2]
    by (simp add: v3_def VM_new_def state_eval)
  have 4: "case step v4 of Inl e \<Rightarrow> False | Inr (running, vm') \<Rightarrow> reg vm' 0 = 0x3000"
    using C7_pc_increment [of v4 "0xE1FF" "set_reg v4 kRPC 0x3001", THEN conjunct2,
        THEN conjunct2, THEN mp, OF f4, THEN conjunct2]
    by (simp add: v4_def VM_new_def state_eval)
  have 5: "case step v5 of Inl e \<Rightarrow> False | Inr (running, vm') \<Rightarrow> memory vm' 0x3002 = 0x1234"
    using C7_pc_increment [of v5 "0x3001" "set_reg v5 kRPC 0x3001", THEN conjunct2,
        THEN conjunct2, THEN mp, OF f5, THEN conjunct2]
    by (simp add: v5_def VM_new_def state_eval)
  have 6: "case step v6 of Inl e \<Rightarrow> False | Inr (running, vm') \<Rightarrow> memory vm' 0x3005 = 0x1234"
    using C7_pc_increment [of v6 "0xB001" "set_reg v6 kRPC 0x3001", THEN conjunct2,
        THEN conjunct2, THEN mp, OF f6, THEN conjunct2]
    by (simp add: v6_def VM_new_def state_eval)
  have 7: "case step v7 of Inl e \<Rightarrow> False
      | Inr (running, vm') \<Rightarrow> reg vm' kR7 = 0x3001 \<and> reg vm' kRPC = 0x2FFF"
    using C7_pc_increment [of v7 "0x4FFE" "set_reg v7 kRPC 0x3001", THEN conjunct2,
        THEN conjunct2, THEN mp, OF f7, THEN conjunct2]
    by (simp add: v7_def VM_new_def state_eval)
  have 8: "unat (reg (set_reg ((VM_new [])\<lparr>reg := (\<lambda>_. 0)(kRPC := 0xFFFF)\<rparr>) kRPC (0xFFFF + 1)) kRPC) = 0"
    using C7_pc_increment [of "(VM_new [])\<lparr>reg := (\<lambda>_. 0)(kRPC := 0xFFFF)\<rparr>" 0 "VM_new []",
        THEN conjunct2, THEN conjunct1]
    by simp
  show ?thesis using 1 2 3 4 5 6 7 8
    by (simp only: v1_def [symmetric] v2_def [symmetric] v3_def [symmetric] v4_def [symmetric]
        v5_def [symmetric] v6_def [symmetric] v7_def [symmetric] simp_thms)
qed

section \<open>Halting\<close>

lemma step_running:
  assumes "fetch vm = Inr (instr, vm1)" "step vm = Inr (running, vm')"
  shows "\<not> running \<longleftrightarrow>
           (drop_bit 12 instr = kOpTrap \<and> instr AND 0xFF = kTrapHalt) \<or>
           drop_bit 12 instr = kOpRti \<or> drop_bit 12 instr = kOpRes"
proof -
  from assms have "execute vm1 instr = Inr (running, vm')" by (simp add: step_def)
  from execute_running [OF this] show ?thesis by blast
qed

lemma loop_stops:
  "loop fuel vm = Inr (Some vm2) \<Longrightarrow>
     \<exists>v instr v1. fetch v = Inr (instr, v1) \<and> step v = Inr (False, vm2) \<and>
       ((drop_bit 12 instr = kOpTrap \<and> instr AND 0xFF = kTrapHalt) \<or>
        drop_bit 12 instr = kOpRti \<or> drop_bit 12 instr = kOpRes)"
proof (induction fuel arbitrary: vm)
  case 0
  then show ?case by simp
next
  case (Suc fuel)
  from Suc.prems obtain running vm' where s: "step vm = Inr (running, vm')"
    by (auto split: sum.splits)
  then obtain instr vm1 where f: "fetch vm = Inr (instr, vm1)"
    by (auto simp add: step_def split: sum.splits)
  show ?case
  proof (cases running)
    case True
    with Suc.prems s have "loop fuel vm' = Inr (Some vm2)" by simp
    then show ?thesis by (rule Suc.IH)
  next
    case False
    with Suc.prems s have "vm' = vm2" by simp
    with s False have s2: "step vm = Inr (False, vm2)" by simp
    from step_running [OF f s2] have
      "(drop_bit 12 instr = kOpTrap \<and> instr AND 0xFF = kTrapHalt) \<or>
       drop_bit 12 instr = kOpRti \<or> drop_bit 12 instr = kOpRes" by simp
    with f s2 show ?thesis by blast
  qed
qed

text \<open>
  C9. A step sets \<open>running\<close> to false exactly when the fetched instruction is a
  TRAP with code 0x25 (HALT) or has opcode 0x8 or 0xD. A TRAP with a code outside
  0x20 to 0x25 does nothing and the loop goes on. When the loop of \<open>Run\<close> stops, the
  last instruction it executed was one of those. The \<open>default\<close> branch of the switch
  is never taken: the sixteen cases cover the four bits of the opcode. A step that
  faults (an access outside \<open>memory_\<close>, a read that waits for input) is not a
  transition of the source at all, and the interrupt signal is outside the model.
\<close>

theorem C9_halting_exhaustive:
  "(fetch vm = Inr (instr, vm1) \<and> step vm = Inr (running, vm') \<longrightarrow>
      (\<not> running \<longleftrightarrow>
         (drop_bit 12 instr = kOpTrap \<and> instr AND 0xFF = kTrapHalt) \<or>
         drop_bit 12 instr = kOpRti \<or> drop_bit 12 instr = kOpRes)) \<and>
   (fetch vm = Inr (instr, vm1) \<and> drop_bit 12 instr = kOpTrap \<and>
    instr AND 0xFF \<notin> {kTrapGetc, kTrapOut, kTrapPuts, kTrapIn, kTrapPutsp, kTrapHalt} \<longrightarrow>
      step vm = Inr (True, vm1)) \<and>
   (loop fuel vm = Inr (Some vm2) \<longrightarrow>
      (\<exists>v i v1. fetch v = Inr (i, v1) \<and> step v = Inr (False, vm2) \<and>
         ((drop_bit 12 i = kOpTrap \<and> i AND 0xFF = kTrapHalt) \<or>
          drop_bit 12 i = kOpRti \<or> drop_bit 12 i = kOpRes)))"
proof -
  have a: "\<not> running \<longleftrightarrow>
         (drop_bit 12 instr = kOpTrap \<and> instr AND 0xFF = kTrapHalt) \<or>
         drop_bit 12 instr = kOpRti \<or> drop_bit 12 instr = kOpRes"
    if "fetch vm = Inr (instr, vm1)" "step vm = Inr (running, vm')"
    using step_running [OF that] .
  have b: "step vm = Inr (True, vm1)"
    if "fetch vm = Inr (instr, vm1)" "drop_bit 12 instr = kOpTrap"
      "instr AND 0xFF \<notin> {kTrapGetc, kTrapOut, kTrapPuts, kTrapIn, kTrapPutsp, kTrapHalt}"
    using that by (simp add: step_def execute_dispatch exec_Trap_dispatch(7))
  have c: "\<exists>v i v1. fetch v = Inr (i, v1) \<and> step v = Inr (False, vm2) \<and>
         ((drop_bit 12 i = kOpTrap \<and> i AND 0xFF = kTrapHalt) \<or>
          drop_bit 12 i = kOpRti \<or> drop_bit 12 i = kOpRes)"
    if "loop fuel vm = Inr (Some vm2)"
    using loop_stops [OF that] .
  show ?thesis using a b c by blast
qed

theorem C9_halting_exhaustive_witness:
  "(case step (Run_init ((VM_new [])\<lparr>memory := (\<lambda>_. 0)(0x3000 := 0xF025)\<rparr>)) of
      Inl e \<Rightarrow> False | Inr (running, vm') \<Rightarrow> \<not> running) \<and>
   (case step (Run_init ((VM_new [])\<lparr>memory := (\<lambda>_. 0)(0x3000 := 0xF0FF)\<rparr>)) of
      Inl e \<Rightarrow> False | Inr (running, vm') \<Rightarrow> running \<and> reg vm' kRPC = 0x3001) \<and>
   (case step (Run_init ((VM_new [])\<lparr>memory := (\<lambda>_. 0)(0x3000 := 0x1021)\<rparr>)) of
      Inl e \<Rightarrow> False | Inr (running, vm') \<Rightarrow> running) \<and>
   (case Run 2 ((VM_new [])\<lparr>memory := (\<lambda>_. 0)(0x3000 := 0x1021, 0x3001 := 0xF025)\<rparr>) of
      Inl e \<Rightarrow> False
    | Inr None \<Rightarrow> False
    | Inr (Some vm') \<Rightarrow> reg vm' 0 = 1 \<and> memory vm' (unat (reg vm' kRPC - 1)) = 0xF025)"
proof -
  define vmH where "vmH = Run_init ((VM_new [])\<lparr>memory := (\<lambda>_. 0)(0x3000 := 0xF025)\<rparr>)"
  define vmU where "vmU = Run_init ((VM_new [])\<lparr>memory := (\<lambda>_. 0)(0x3000 := 0xF0FF)\<rparr>)"
  define vmC where "vmC = Run_init ((VM_new [])\<lparr>memory := (\<lambda>_. 0)(0x3000 := 0x1021)\<rparr>)"
  define vmP where "vmP = (VM_new [])\<lparr>memory := (\<lambda>_. 0)(0x3000 := 0x1021, 0x3001 := 0xF025)\<rparr>"
  have "\<exists>v1 r v'. fetch vmH = Inr (0xF025, v1) \<and> step vmH = Inr (r, v')"
    by (auto simp add: vmH_def VM_new_def step_eval exec_Trap_def trap_defs)
  then obtain h1 hr h' where fh: "fetch vmH = Inr (0xF025, h1)" and sh: "step vmH = Inr (hr, h')"
    by blast
  have "\<not> hr"
    using C9_halting_exhaustive [of vmH "0xF025" h1 hr h' 0 vmH] fh sh
    by (simp add: op_defs trap_defs)
  with sh have 1: "case step vmH of Inl e \<Rightarrow> False | Inr (running, vm') \<Rightarrow> \<not> running"
    by simp
  have "\<exists>v1. fetch vmU = Inr (0xF0FF, v1) \<and> reg v1 kRPC = 0x3001"
    by (simp add: vmU_def VM_new_def step_eval)
  then obtain u1 where fu: "fetch vmU = Inr (0xF0FF, u1)" and ru: "reg u1 kRPC = 0x3001" by blast
  have "step vmU = Inr (True, u1)"
    using C9_halting_exhaustive [of vmU "0xF0FF" u1 True u1 0 vmU] fu
    by (simp add: op_defs trap_defs)
  with ru have 2: "case step vmU of Inl e \<Rightarrow> False
      | Inr (running, vm') \<Rightarrow> running \<and> reg vm' kRPC = 0x3001"
    by simp
  have "\<exists>v1 r v'. fetch vmC = Inr (0x1021, v1) \<and> step vmC = Inr (r, v')"
    by (auto simp add: vmC_def VM_new_def step_eval exec_Add_def)
  then obtain c1 cr c' where fc: "fetch vmC = Inr (0x1021, c1)" and sc: "step vmC = Inr (cr, c')"
    by blast
  have "cr"
    using C9_halting_exhaustive [of vmC "0x1021" c1 cr c' 0 vmC] fc sc
    by (simp add: op_defs trap_defs)
  with sc have 3: "case step vmC of Inl e \<Rightarrow> False | Inr (running, vm') \<Rightarrow> running"
    by simp
  have "\<exists>v'. loop 2 (Run_init vmP) = Inr (Some v') \<and> reg v' 0 = 1 \<and>
          memory v' (unat (reg v' kRPC - 1)) = 0xF025"
    by (simp add: vmP_def VM_new_def step_eval exec_Add_def exec_Trap_def trap_defs)
  then obtain p' where lp: "loop 2 (Run_init vmP) = Inr (Some p')" and rp: "reg p' 0 = 1"
    and mp: "memory p' (unat (reg p' kRPC - 1)) = 0xF025" by blast
  have "\<exists>v i v1. fetch v = Inr (i, v1) \<and> step v = Inr (False, p') \<and>
         ((drop_bit 12 i = kOpTrap \<and> i AND 0xFF = kTrapHalt) \<or>
          drop_bit 12 i = kOpRti \<or> drop_bit 12 i = kOpRes)"
    using C9_halting_exhaustive [of "Run_init vmP" 0 vmP True vmP 2 p'] lp by blast
  have 4: "case Run 2 vmP of Inl e \<Rightarrow> False | Inr None \<Rightarrow> False
    | Inr (Some vm') \<Rightarrow> reg vm' 0 = 1 \<and> memory vm' (unat (reg vm' kRPC - 1)) = 0xF025"
    using lp rp mp by (simp add: Run_def)
  show ?thesis using 1 2 3 4
    by (simp add: vmH_def [symmetric] vmU_def [symmetric] vmC_def [symmetric] vmP_def [symmetric])
qed

section \<open>Loading an image\<close>

lemma LoadImage_failure_iff:
  "LoadImage vm image_buf image_size = Inr (False, vm') \<longleftrightarrow>
     (image_buf = None \<or> image_size = 0 \<or> image_size > 65535) \<and> vm' = vm"
  by (auto simp add: LoadImage_def Let_def kMaxMemory_def split: option.splits)

lemma body_size:
  "2 \<le> image_size \<Longrightarrow> image_size \<le> 65535 \<Longrightarrow>
   nat ((image_size - 2) mod 2 ^ 64) = nat (image_size - 2)"
  by simp

lemma wrapped_size: "nat (((1::int) - 2) mod 2 ^ 64) = 2 ^ 64 - 1"
  by simp

lemma LoadImage_one_byte:
  "length buf < 2 ^ 64 \<Longrightarrow> LoadImage vm (Some buf) 1 = Inl OutOfBounds"
  by (simp add: LoadImage_def Let_def kMaxMemory_def)

lemma LoadImage_success:
  assumes "2 \<le> image_size" "image_size \<le> 65535" "nat image_size \<le> length buf"
  shows "LoadImage vm (Some buf) image_size =
           Inr (True, vm\<lparr>memory :=
             swap_loop (memcpy_bytes (memory vm)
                          (2 * unat (u16Swap (host_u16 (buf ! 0) (buf ! 1))))
                          (take (nat (image_size - 2)) (drop 2 buf)))
               (unat (u16Swap (host_u16 (buf ! 0) (buf ! 1)))) (nat (image_size - 2))\<rparr>)"
proof -
  have l: "\<not> length buf < 2" "\<not> length buf < 2 + nat (image_size - 2)"
    using assms(1,3) by auto
  show ?thesis
    using assms(1,2) l
    by (simp add: LoadImage_def Let_def kMaxMemory_def)
qed

text \<open>
  C8. The failure half holds as stated: the load returns failure exactly when the
  buffer is null, empty or larger than 65535 bytes, and then the machine is
  unchanged. Every buffer of 2 to 65535 bytes is loaded with success. The one-byte
  buffer is not: the guard lets it pass, \<open>image_size - sizeof(origin)\<close> is computed in
  the unsigned \<open>size_t\<close> and wraps to \<open>2^64 - 1\<close>, and the load neither fails nor
  succeeds, it reads outside the buffer, whether the buffer holds the one byte or,
  as \<open>main\<close> allocates it, one byte more.
\<close>

theorem C8_one_byte_buffer:
  "LoadImage vm (Some [b]) 1 = Inl OutOfBounds \<and>
   LoadImage vm (Some [b, c]) 1 = Inl OutOfBounds \<and>
   (LoadImage vm image_buf image_size = Inr (False, vm') \<longleftrightarrow>
      (image_buf = None \<or> image_size = 0 \<or> image_size > 65535) \<and> vm' = vm) \<and>
   (2 \<le> image_size \<and> image_size \<le> 65535 \<and> nat image_size \<le> length buf \<longrightarrow>
      (\<exists>vm2. LoadImage vm (Some buf) image_size = Inr (True, vm2)))"
proof -
  have 1: "LoadImage vm (Some [b]) 1 = Inl OutOfBounds"
    by (rule LoadImage_one_byte) simp
  have 2: "LoadImage vm (Some [b, c]) 1 = Inl OutOfBounds"
    by (rule LoadImage_one_byte) simp
  show ?thesis
    using 1 2 LoadImage_failure_iff [of vm image_buf image_size vm']
      LoadImage_success [of image_size buf vm]
    by simp
qed

theorem C8_one_byte_buffer_witness:
  "LoadImage (VM_new []) (Some [0x30]) 1 = Inl OutOfBounds \<and>
   LoadImage (VM_new []) (Some [0x30, 0x00]) 1 = Inl OutOfBounds \<and>
   LoadImage (VM_new []) None 4 = Inr (False, VM_new []) \<and>
   LoadImage (VM_new []) (Some []) 0 = Inr (False, VM_new []) \<and>
   LoadImage (VM_new []) (Some (replicate 65536 0)) 65536 = Inr (False, VM_new []) \<and>
   (2 \<le> (4::int) \<and> (4::int) \<le> 65535 \<and> nat 4 \<le> length [0x30, 0x00, 0xF0, 0x25 :: u8]) \<and>
   (\<exists>vm2. LoadImage (VM_new []) (Some [0x30, 0x00, 0xF0, 0x25]) 4 = Inr (True, vm2)) \<and>
   (2 \<le> (60002::int) \<and> (60002::int) \<le> 65535 \<and>
    nat 60002 \<le> length (0x30 # 0x00 # replicate 60000 (0 :: u8))) \<and>
   (\<exists>vm2. LoadImage (VM_new []) (Some (0x30 # 0x00 # replicate 60000 0)) 60002 = Inr (True, vm2))"
proof -
  have 0: "LoadImage (VM_new []) (Some [0x30]) 1 = Inl OutOfBounds"
    "LoadImage (VM_new []) (Some [0x30, 0x00]) 1 = Inl OutOfBounds"
    using C8_one_byte_buffer [of "VM_new []" "0x30" "0x00" None 4 "VM_new []" "[]"] by blast+
  have 1: "LoadImage (VM_new []) None 4 = Inr (False, VM_new [])"
    using C8_one_byte_buffer [of "VM_new []" 0 0 None 4 "VM_new []" "[]"] by simp
  have 2: "LoadImage (VM_new []) (Some []) 0 = Inr (False, VM_new [])"
    using C8_one_byte_buffer [of "VM_new []" 0 0 "Some []" 0 "VM_new []" "[]"] by simp
  have 3: "LoadImage (VM_new []) (Some (replicate 65536 0)) 65536 = Inr (False, VM_new [])"
    using C8_one_byte_buffer [of "VM_new []" 0 0 "Some (replicate 65536 0)" 65536 "VM_new []" "[]"]
    by simp
  have h: "2 \<le> (4::int) \<and> (4::int) \<le> 65535 \<and> nat 4 \<le> length [0x30, 0x00, 0xF0, 0x25 :: u8]"
    by simp
  have 4: "\<exists>vm2. LoadImage (VM_new []) (Some [0x30, 0x00, 0xF0, 0x25]) 4 = Inr (True, vm2)"
    using C8_one_byte_buffer [of "VM_new []" 0 0 None 4 "VM_new []" "[0x30, 0x00, 0xF0, 0x25]"] h
    by blast
  have g: "2 \<le> (60002::int) \<and> (60002::int) \<le> 65535 \<and>
    nat 60002 \<le> length (0x30 # 0x00 # replicate 60000 (0 :: u8))"
    by simp
  have 5: "\<exists>vm2. LoadImage (VM_new []) (Some (0x30 # 0x00 # replicate 60000 0)) 60002 =
             Inr (True, vm2)"
    using C8_one_byte_buffer [of "VM_new []" 0 0 None 60002 "VM_new []"
        "0x30 # 0x00 # replicate 60000 0"] g
    by blast
  show ?thesis using 0 1 2 3 4 5 h g by simp
qed

lemma low_mask: "(0xFF :: u16) = mask 8"
  by (simp add: mask_eq_exp_minus_1)

lemma high_mask: "(0xFF00 :: u16) = push_bit 8 (mask 8)"
  by (simp add: mask_eq_exp_minus_1 push_bit_eq_mult)

lemma u8_no_high_bit: "\<not> bit (b::u8) (8 + n)"
  by (auto dest: bit_imp_le_length)

lemma host_u16_low: "ucast (host_u16 b0 b1) = b0"
  unfolding host_u16_def by (rule bit_word_eqI) (auto simp add: bit_simps)

lemma host_u16_high: "ucast (drop_bit 8 (host_u16 b0 b1)) = b1"
  unfolding host_u16_def by (rule bit_word_eqI) (auto simp add: bit_simps u8_no_high_bit)

lemma word_of_bytes: "host_u16 (ucast (w::u16)) (ucast (drop_bit 8 w)) = w"
  unfolding host_u16_def by (rule bit_word_eqI) (auto simp add: bit_simps)

lemma store_low: "((w::u16) AND 0xFF00) OR ucast (b::u8) = host_u16 b (ucast (drop_bit 8 w))"
  unfolding host_u16_def high_mask by (rule bit_word_eqI) (auto simp add: bit_simps)

lemma store_high: "((w::u16) AND 0x00FF) OR push_bit 8 (ucast (b::u8)) = host_u16 (ucast w) b"
  unfolding host_u16_def low_mask by (rule bit_word_eqI) (auto simp add: bit_simps)

lemma store_byte_host:
  "store_byte m k b =
     m(k div 2 := (if even k then host_u16 b (ucast (drop_bit 8 (m (k div 2))))
                   else host_u16 (ucast (m (k div 2))) b))"
  by (simp only: store_byte_def Let_def store_low store_high)

lemma memory_of_bytes: "m w = host_u16 (byte_at m (2 * w)) (byte_at m (2 * w + 1))"
  by (simp add: byte_at_def word_of_bytes)

lemma byte_at_store:
  "byte_at (store_byte m k b) j = (if j = k then b else byte_at m j)"
proof (cases "j div 2 = k div 2")
  case False
  then have "j \<noteq> k" by auto
  with False show ?thesis by (simp add: byte_at_def store_byte_host)
next
  case True
  show ?thesis
  proof (cases "j = k")
    case True
    then show ?thesis
      by (simp add: byte_at_def store_byte_host host_u16_low host_u16_high)
  next
    case False
    with True have "even j \<longleftrightarrow> odd k" by presburger
    with True False show ?thesis
      by (auto simp add: byte_at_def store_byte_host host_u16_low host_u16_high)
  qed
qed

lemma byte_at_memcpy:
  "byte_at (memcpy_bytes m k bs) j =
     (if k \<le> j \<and> j < k + length bs then bs ! (j - k) else byte_at m j)"
proof (induction bs arbitrary: m k j)
  case Nil
  then show ?case by auto
next
  case (Cons b bs)
  show ?case
    by (auto simp add: Cons.IH byte_at_store nth_Cons' Suc_diff_le)
qed

lemma swap_loop_cells:
  "swap_loop m p n a = (if p \<le> a \<and> a < p + n then u16Swap (m a) else m a)"
  by (induction n arbitrary: m p) auto

lemma swap_host: "u16Swap (host_u16 b0 b1) = push_bit 8 (ucast b0) OR ucast b1"
  unfolding u16Swap_def host_u16_def
  by (rule bit_word_eqI) (auto simp add: bit_simps dest: bit_imp_le_length)

lemma LoadImage_memory:
  assumes ok: "LoadImage vm (Some buf) image_size = Inr (True, vm')"
    and size: "2 \<le> image_size"
  shows "(\<forall>i. 2 * i + 1 < nat (image_size - 2) \<longrightarrow>
            memory vm' (unat (u16Swap (host_u16 (buf ! 0) (buf ! 1))) + i) =
              push_bit 8 (ucast (buf ! (2 + 2 * i))) OR ucast (buf ! (3 + 2 * i))) \<and>
         (\<forall>a. a < unat (u16Swap (host_u16 (buf ! 0) (buf ! 1))) \<or>
              unat (u16Swap (host_u16 (buf ! 0) (buf ! 1))) + nat (image_size - 2) \<le> a \<longrightarrow>
            memory vm' a = memory vm a) \<and>
         (\<forall>a. unat (u16Swap (host_u16 (buf ! 0) (buf ! 1))) + (nat (image_size - 2) + 1) div 2 \<le> a \<and>
              a < unat (u16Swap (host_u16 (buf ! 0) (buf ! 1))) + nat (image_size - 2) \<longrightarrow>
            memory vm' a = u16Swap (memory vm a)) \<and>
         reg vm' = reg vm \<and> stdin vm' = stdin vm \<and> stdio_buf vm' = stdio_buf vm \<and>
         stdout vm' = stdout vm"
proof -
  define p where "p = unat (u16Swap (host_u16 (buf ! 0) (buf ! 1)))"
  define n where "n = nat (image_size - 2)"
  define bs where "bs = take n (drop 2 buf)"
  define mc where "mc = memcpy_bytes (memory vm) (2 * p) bs"
  from ok have le: "image_size \<le> 65535"
    by (auto simp add: LoadImage_def kMaxMemory_def split: if_splits)
  with size have n: "nat ((image_size - 2) mod 2 ^ 64) = n" by (simp add: n_def)
  from ok size le have len: "2 + n \<le> length buf"
    by (auto simp add: LoadImage_def Let_def n [unfolded n_def] n_def kMaxMemory_def
        split: if_splits)
  define m' where "m' = swap_loop mc p n"
  from ok size le have vm': "vm' = vm\<lparr>memory := m'\<rparr>"
    by (auto simp add: LoadImage_def Let_def n [unfolded n_def] n_def p_def mc_def bs_def
        m'_def kMaxMemory_def split: if_splits)
  have lbs: "length bs = n" using len by (simp add: bs_def)
  have nth: "bs ! j = buf ! (2 + j)" if "j < n" for j
    using that len by (simp add: bs_def)
  have cell: "m' a = (if p \<le> a \<and> a < p + n then u16Swap (mc a) else mc a)" for a
    unfolding m'_def by (rule swap_loop_cells)
  have byte: "byte_at mc j = (if 2 * p \<le> j \<and> j < 2 * p + n then bs ! (j - 2 * p)
                              else byte_at (memory vm) j)" for j
    unfolding mc_def by (simp add: byte_at_memcpy lbs)
  have 1: "memory vm' (p + i) = push_bit 8 (ucast (buf ! (2 + 2 * i))) OR ucast (buf ! (3 + 2 * i))"
    if "2 * i + 1 < n" for i
  proof -
    have "byte_at mc (2 * (p + i)) = buf ! (2 + 2 * i)"
      using that nth [of "2 * i"] by (simp add: byte)
    moreover have "byte_at mc (2 * (p + i) + 1) = buf ! (3 + 2 * i)"
      using that nth [of "2 * i + 1"] by (simp add: byte numeral_3_eq_3)
    ultimately have "mc (p + i) = host_u16 (buf ! (2 + 2 * i)) (buf ! (3 + 2 * i))"
      using memory_of_bytes [of mc "p + i"] by simp
    moreover have "m' (p + i) = u16Swap (mc (p + i))" using that by (simp add: cell)
    ultimately show ?thesis by (simp add: vm' swap_host)
  qed
  have same: "mc a = memory vm a" if "a < p \<or> p + (n + 1) div 2 \<le> a" for a
  proof -
    have "\<not> (2 * p \<le> 2 * a \<and> 2 * a < 2 * p + n)" using that by auto
    moreover have "\<not> (2 * p \<le> 2 * a + 1 \<and> 2 * a + 1 < 2 * p + n)" using that by auto
    ultimately have "byte_at mc (2 * a) = byte_at (memory vm) (2 * a)"
      and "byte_at mc (2 * a + 1) = byte_at (memory vm) (2 * a + 1)"
      by (auto simp add: byte)
    then show ?thesis
      using memory_of_bytes [of mc a] memory_of_bytes [of "memory vm" a] by simp
  qed
  have 2: "memory vm' a = memory vm a" if "a < p \<or> p + n \<le> a" for a
  proof -
    from that have "a < p \<or> p + (n + 1) div 2 \<le> a" by auto
    from same [OF this] that show ?thesis by (auto simp add: vm' cell)
  qed
  have 3: "memory vm' a = u16Swap (memory vm a)" if "p + (n + 1) div 2 \<le> a \<and> a < p + n" for a
  proof -
    from that have "a < p \<or> p + (n + 1) div 2 \<le> a" by auto
    from same [OF this] that show ?thesis by (auto simp add: vm' cell)
  qed
  have 4: "reg vm' = reg vm \<and> stdin vm' = stdin vm \<and> stdio_buf vm' = stdio_buf vm \<and>
           stdout vm' = stdout vm"
    by (simp add: vm')
  show ?thesis using 1 2 3 4 unfolding p_def n_def by blast
qed

text \<open>
  What a successful load does to memory, by \<open>LoadImage_memory\<close>: the whole body words
  are stored big-endian from the origin; the cells from \<open>origin + (N + 1) div 2\<close> up
  to \<open>origin + N\<close>, which the image does not cover, have their bytes exchanged; the
  cells outside \<open>origin\<close> to \<open>origin + N\<close> are unchanged.
\<close>

text \<open>
  C4. The loader has no check of the origin against the size of the memory: no
  image of 1 to 65535 bytes is refused, and an image of 2 to 65535 bytes is loaded
  with success wherever it ends, its words stored from the origin on, also in the
  cells behind the array; the bytes FF FF 01 02 03 04 put 0x0102 in cell 0xFFFF and
  0x0304 in the cell after it. The one-byte image is not loaded with success: its
  body size \<open>image_size - sizeof(origin)\<close> wraps to \<open>2^64 - 1\<close> in \<open>size_t\<close> and the copy
  leaves the buffer.
\<close>

theorem C4_no_origin_check:
  "(length buf < 2 ^ 64 \<longrightarrow> LoadImage vm (Some buf) 1 = Inl OutOfBounds) \<and>
   (1 \<le> image_size \<and> image_size \<le> 65535 \<longrightarrow>
      LoadImage vm (Some buf) image_size \<noteq> Inr (False, vm0)) \<and>
   (2 \<le> image_size \<and> image_size \<le> 65535 \<and> nat image_size \<le> length buf \<longrightarrow>
      (\<exists>vm'. LoadImage vm (Some buf) image_size = Inr (True, vm') \<and>
         (\<forall>i. 2 * i + 1 < nat (image_size - 2) \<longrightarrow>
            memory vm' (unat (u16Swap (host_u16 (buf ! 0) (buf ! 1))) + i) =
              push_bit 8 (ucast (buf ! (2 + 2 * i))) OR ucast (buf ! (3 + 2 * i)))))"
proof -
  have a: "LoadImage vm (Some buf) 1 = Inl OutOfBounds" if "length buf < 2 ^ 64"
    using that by (rule LoadImage_one_byte)
  have b: "LoadImage vm (Some buf) image_size \<noteq> Inr (False, vm0)"
    if "1 \<le> image_size" "image_size \<le> 65535"
    using that by (simp add: LoadImage_failure_iff)
  have c: "\<exists>vm'. LoadImage vm (Some buf) image_size = Inr (True, vm') \<and>
         (\<forall>i. 2 * i + 1 < nat (image_size - 2) \<longrightarrow>
            memory vm' (unat (u16Swap (host_u16 (buf ! 0) (buf ! 1))) + i) =
              push_bit 8 (ucast (buf ! (2 + 2 * i))) OR ucast (buf ! (3 + 2 * i)))"
    if s: "2 \<le> image_size" "image_size \<le> 65535" "nat image_size \<le> length buf"
  proof -
    from LoadImage_success [OF s] obtain vm'
      where ok: "LoadImage vm (Some buf) image_size = Inr (True, vm')" by blast
    from LoadImage_memory [OF ok s(1)] ok show ?thesis by blast
  qed
  show ?thesis using a b c by blast
qed

theorem C4_no_origin_check_witness:
  "length [0x30, 0x00 :: u8] < 2 ^ 64 \<and>
   LoadImage (VM_new []) (Some [0x30, 0x00]) 1 = Inl OutOfBounds \<and>
   (2 \<le> (6::int) \<and> (6::int) \<le> 65535 \<and>
    nat 6 \<le> length [0xFF, 0xFF, 0x01, 0x02, 0x03, 0x04 :: u8]) \<and>
   65536 < unat (u16Swap (host_u16 0xFF 0xFF)) + nat ((6 - 2) div 2) \<and>
   LoadImage (VM_new []) (Some [0xFF, 0xFF, 0x01, 0x02, 0x03, 0x04]) 6 \<noteq>
     Inr (False, VM_new []) \<and>
   (case LoadImage (VM_new []) (Some [0xFF, 0xFF, 0x01, 0x02, 0x03, 0x04]) 6 of
      Inl e \<Rightarrow> False
    | Inr (ok, vm') \<Rightarrow> ok \<and> memory vm' 0xFFFF = 0x0102 \<and> memory vm' 0x10000 = 0x0304)"
proof -
  let ?buf = "[0xFF, 0xFF, 0x01, 0x02, 0x03, 0x04 :: u8]"
  note t = C4_no_origin_check [of "[0x30, 0x00]" "VM_new []" 6 "VM_new []"]
  note u = C4_no_origin_check [of ?buf "VM_new []" 6 "VM_new []"]
  have l: "length [0x30, 0x00 :: u8] < 2 ^ 64" by simp
  have 1: "LoadImage (VM_new []) (Some [0x30, 0x00]) 1 = Inl OutOfBounds"
    using t l by blast
  have h: "2 \<le> (6::int) \<and> (6::int) \<le> 65535 \<and> nat 6 \<le> length ?buf" by simp
  have g: "1 \<le> (6::int) \<and> (6::int) \<le> 65535" by simp
  have o: "unat (u16Swap (host_u16 (?buf ! 0) (?buf ! 1))) = 65535"
    "65536 < unat (u16Swap (host_u16 0xFF 0xFF)) + nat ((6 - 2) div 2)"
    by (simp_all add: host_u16_def u16Swap_def)
  have 2: "LoadImage (VM_new []) (Some ?buf) 6 \<noteq> Inr (False, VM_new [])"
    using u g by blast
  from u h obtain vm' where ok: "LoadImage (VM_new []) (Some ?buf) 6 = Inr (True, vm')"
    and w: "\<forall>i. 2 * i + 1 < nat (6 - 2) \<longrightarrow>
            memory vm' (unat (u16Swap (host_u16 (?buf ! 0) (?buf ! 1))) + i) =
              push_bit 8 (ucast (?buf ! (2 + 2 * i))) OR ucast (?buf ! (3 + 2 * i))"
    by blast
  from w [rule_format, of 0] o(1) have w0: "memory vm' 0xFFFF = 0x0102" by simp
  from w [rule_format, of 1] o(1) have w1: "memory vm' 0x10000 = 0x0304" by simp
  show ?thesis using l 1 h o(2) 2 ok w0 w1 by simp
qed

text \<open>
  C3. The loop after the copy runs once per body byte, not once per body word, so it
  also exchanges the bytes of the cells that follow the loaded words. Loading
  30 01 12 34 and then 30 00 AB CD leaves 0x3412 in cell 0x3001, which the second
  image does not cover; loading the three bytes 30 00 41 changes cell 0x3000, which
  lies outside the empty range of whole body words.
\<close>

theorem C3_swap_loop_overrun:
  "(case LoadImage (VM_new []) (Some [0x30, 0x01, 0x12, 0x34]) 4 of
      Inl e \<Rightarrow> False
    | Inr (ok1, vm1) \<Rightarrow>
        ok1 \<and> memory vm1 0x3001 = 0x1234 \<and>
        (case LoadImage vm1 (Some [0x30, 0x00, 0xAB, 0xCD]) 4 of
           Inl e \<Rightarrow> False
         | Inr (ok2, vm2) \<Rightarrow>
             ok2 \<and> memory vm2 0x3000 = 0xABCD \<and> memory vm2 0x3001 = 0x3412)) \<and>
   (case LoadImage (VM_new []) (Some [0x30, 0x00, 0x41]) 3 of
      Inl e \<Rightarrow> False
    | Inr (ok, vm1) \<Rightarrow> ok \<and> memory vm1 0x3000 = 0x4100)"
  by (simp add: load_eval)

section \<open>The two programs of the specification\<close>

text \<open>
  The counting loop (\<open>AND R0,R0,0\<close>; \<open>ADD R0,R0,1\<close>; \<open>ADD R1,R0,-10\<close>; \<open>BRn\<close> back;
  \<open>TRAP HALT\<close>) halts after 32 steps with 10 in register 0, and \<open>TRAP PUTS\<close> on the
  words 72, 105, 0 writes \<open>Hi\<close> and no terminator.
\<close>

lemma Run_counting_loop:
  "case LoadImage (VM_new [])
          (Some [0x30, 0x00, 0x50, 0x20, 0x10, 0x21, 0x12, 0x36, 0x09, 0xFD, 0xF0, 0x25]) 12 of
     Inl e \<Rightarrow> False
   | Inr (ok, vm) \<Rightarrow>
       ok \<and> (case Run 32 vm of
               Inl e \<Rightarrow> False
             | Inr None \<Rightarrow> False
             | Inr (Some vm') \<Rightarrow> reg vm' 0 = 10 \<and> stdout vm' = ''halt'' @ [CHR 0x0A])"
  by (simp add: load_eval step_eval exec_And_def exec_Add_def exec_Br_def exec_Trap_def trap_defs)

lemma Run_puts_hi:
  "case LoadImage (VM_new [])
          (Some [0x30, 0x00, 0xE0, 0x02, 0xF0, 0x22, 0xF0, 0x25, 0x00, 0x48, 0x00, 0x69,
                 0x00, 0x00]) 14 of
     Inl e \<Rightarrow> False
   | Inr (ok, vm) \<Rightarrow>
       ok \<and> (case Run 3 vm of
               Inl e \<Rightarrow> False
             | Inr None \<Rightarrow> False
             | Inr (Some vm') \<Rightarrow> stdout vm' = ''Hihalt'' @ [CHR 0x0A])"
  by (simp add: load_eval step_eval exec_Lea_def exec_Trap_def trap_defs puts_loop.simps char_of_def)

end
